theory Spec2Isabelle
  imports Complex_Main
begin

section \<open>Numbers\<close>

text \<open>
  The worker computes with JavaScript numbers. They are modelled as \<^typ>\<open>real\<close> with exact
  arithmetic: rounding and overflow are outside this model. A JavaScript operation whose
  result is not a finite number (a division by zero, the square root of a negative number,
  arithmetic on \<^verbatim>\<open>undefined\<close>) has no value in \<^typ>\<open>real\<close>; the model returns
  \<open>Inl NonFinite\<close> there and follows the computation no further. The two properties that
  rounding or a value that is not a finite number decides are settled on a second model of
  \<^verbatim>\<open>SimSystem\<close>, in IEEE-754 doubles, which follows the worker below.
\<close>

datatype fault = NonFinite

definition js_div :: "real \<Rightarrow> real \<Rightarrow> fault + real" where
  "js_div a b = (if b = 0 then Inl NonFinite else Inr (a / b))"

definition Math_sqrt :: "real \<Rightarrow> fault + real" where
  "Math_sqrt a = (if a < 0 then Inl NonFinite else Inr (sqrt a))"

text \<open>Every \<^typ>\<open>real\<close> is a finite number, so the test always succeeds in the model.\<close>

definition Number_isFinite :: "real \<Rightarrow> bool" where
  "Number_isFinite a = True"

definition bind_res :: "fault + 'a \<Rightarrow> ('a \<Rightarrow> fault + 'b) \<Rightarrow> fault + 'b" where
  "bind_res r f = (case r of Inl e \<Rightarrow> Inl e | Inr v \<Rightarrow> f v)"

section \<open>Physics constants\<close>

definition SUB_STEPS :: nat where "SUB_STEPS = 16"
definition GRAVITY :: real where "GRAVITY = 9.81 * 100"
definition CONTAINER_RADIUS :: real where "CONTAINER_RADIUS = 300"
definition BALL_RADIUS :: real where "BALL_RADIUS = 30"
definition BALL_MASS :: real where "BALL_MASS = 10"
definition CONTAINER_MASS :: real where "CONTAINER_MASS = 200"
definition RESTITUTION_NORMAL :: real where "RESTITUTION_NORMAL = 1.0"
definition RESTITUTION_TANGENT :: real where "RESTITUTION_TANGENT = 1.0"
definition NUM_SYSTEMS :: real where "NUM_SYSTEMS = 64"
definition STATE_STRIDE :: nat where "STATE_STRIDE = 4"

section \<open>SimSystem\<close>

text \<open>
  The objects \<^verbatim>\<open>this.ball\<close> and \<^verbatim>\<open>this.container\<close> with the fields that \<^verbatim>\<open>reset\<close>
  gives them. (The first version of the file also stores an empty \<^verbatim>\<open>history\<close> list in the
  ball, which nothing reads; it is left out.)
\<close>

record Ball =
  b_x :: real
  b_y :: real
  b_vx :: real
  b_vy :: real
  b_angle :: real
  b_angularVelocity :: real
  b_radius :: real
  b_mass :: real
  b_inertia :: real

record Container =
  c_angle :: real
  c_angularVelocity :: real
  c_radius :: real
  c_mass :: real
  c_inertia :: real

record SimSystem =
  sys_id :: int
  ball :: Ball
  container :: Container
  initialEnergy :: real

record EnergyStats =
  total :: real
  pe :: real

definition calculateEnergy :: "SimSystem \<Rightarrow> EnergyStats" where
  "calculateEnergy this =
     (let b = ball this;
          c = container this;
          v2 = b_vx b * b_vx b + b_vy b * b_vy b;
          keLin = 0.5 * b_mass b * v2;
          keRotB = 0.5 * b_inertia b * (b_angularVelocity b * b_angularVelocity b);
          keRotC = 0.5 * c_inertia c * (c_angularVelocity c * c_angularVelocity c);
          pe = - b_mass b * GRAVITY * b_y b
      in \<lparr>total = keLin + keRotB + keRotC + pe, pe = pe\<rparr>)"

text \<open>\<^verbatim>\<open>reset(id)\<close>: overwrites ball, container and baseline; \<^verbatim>\<open>this.id\<close> is kept.\<close>

definition reset :: "SimSystem \<Rightarrow> int \<Rightarrow> SimSystem" where
  "reset this i =
     (let offset = (of_int i / NUM_SYSTEMS * 0.02) - 0.01;
          this1 = this\<lparr>ball :=
            \<lparr>b_x = 1 + offset,
             b_y = -220,
             b_vx = 0, b_vy = 0,
             b_angle = 0, b_angularVelocity = 0,
             b_radius = BALL_RADIUS, b_mass = BALL_MASS,
             b_inertia = 0.5 * BALL_MASS * (BALL_RADIUS * BALL_RADIUS)\<rparr>\<rparr>;
          this2 = this1\<lparr>container :=
            \<lparr>c_angle = 0, c_angularVelocity = 0,
             c_radius = CONTAINER_RADIUS, c_mass = CONTAINER_MASS,
             c_inertia = CONTAINER_MASS * (CONTAINER_RADIUS * CONTAINER_RADIUS)\<rparr>\<rparr>
      in this2\<lparr>initialEnergy := total (calculateEnergy this2)\<rparr>)"

text \<open>
  The constructor: \<^verbatim>\<open>this.ball = {}\<close> and \<^verbatim>\<open>this.container = {}\<close> are empty objects that
  \<^verbatim>\<open>reset\<close> replaces at once; the record needs some value there and zero is used.
\<close>

definition empty_ball :: Ball where
  "empty_ball = \<lparr>b_x = 0, b_y = 0, b_vx = 0, b_vy = 0, b_angle = 0, b_angularVelocity = 0,
                 b_radius = 0, b_mass = 0, b_inertia = 0\<rparr>"

definition empty_container :: Container where
  "empty_container = \<lparr>c_angle = 0, c_angularVelocity = 0, c_radius = 0, c_mass = 0,
                      c_inertia = 0\<rparr>"

definition new_SimSystem :: "int \<Rightarrow> SimSystem" where
  "new_SimSystem i =
     reset \<lparr>sys_id = i, ball = empty_ball, container = empty_container, initialEnergy = 0\<rparr> i"

subsection \<open>update, second version of the file\<close>

text \<open>The values \<^verbatim>\<open>update\<close> computes once, before its loop.\<close>

record hoisted =
  h_subDt :: real
  h_gravitySubDt :: real
  h_rB :: real
  h_rC :: real
  h_maxDist :: real
  h_maxDistSq :: real
  h_invMass :: real
  h_invInertiaB :: real
  h_invInertiaC :: real
  h_effMass :: real

definition hoist :: "real \<Rightarrow> Ball \<Rightarrow> Container \<Rightarrow> fault + hoisted" where
  "hoist dt b c =
     (let subDt = dt / real SUB_STEPS;
          gravitySubDt = GRAVITY * subDt;
          rB = b_radius b;
          rC = c_radius c;
          maxDist = rC - rB;
          maxDistSq = maxDist * maxDist
      in bind_res (js_div 1 (b_mass b)) (\<lambda>invMass.
         bind_res (js_div 1 (b_inertia b)) (\<lambda>invInertiaB.
         bind_res (js_div 1 (c_inertia c)) (\<lambda>invInertiaC.
           let invM = invMass;
               invIb = (rB * rB) * invInertiaB;
               invIw = (rC * rC) * invInertiaC
           in bind_res (js_div 1 (invM + invIb + invIw)) (\<lambda>effMass.
                Inr \<lparr>h_subDt = subDt, h_gravitySubDt = gravitySubDt, h_rB = rB, h_rC = rC,
                     h_maxDist = maxDist, h_maxDistSq = maxDistSq, h_invMass = invMass,
                     h_invInertiaB = invInertiaB, h_invInertiaC = invInertiaC,
                     h_effMass = effMass\<rparr>)))))"

text \<open>The integration part of the loop body.\<close>

definition integrate :: "hoisted \<Rightarrow> Ball \<times> Container \<Rightarrow> Ball \<times> Container" where
  "integrate h bc =
     (let b = fst bc; c = snd bc;
          b1 = b\<lparr>b_vy := b_vy b + h_gravitySubDt h\<rparr>;
          b2 = b1\<lparr>b_x := b_x b1 + b_vx b1 * h_subDt h\<rparr>;
          b3 = b2\<lparr>b_y := b_y b2 + b_vy b2 * h_subDt h\<rparr>;
          b4 = b3\<lparr>b_angle := b_angle b3 + b_angularVelocity b3 * h_subDt h\<rparr>;
          c1 = c\<lparr>c_angle := c_angle c + c_angularVelocity c * h_subDt h\<rparr>
      in (b4, c1))"

text \<open>
  The collision part of the loop body. \<^verbatim>\<open>continue\<close> ends the loop body, so it returns the
  state as it is.
\<close>

definition collide :: "hoisted \<Rightarrow> Ball \<times> Container \<Rightarrow> fault + Ball \<times> Container" where
  "collide h bc =
     (let b = fst bc; c = snd bc;
          x = b_x b;
          y = b_y b;
          distSq = x * x + y * y
      in if distSq \<ge> h_maxDistSq h then
           bind_res (Math_sqrt distSq) (\<lambda>dist.
             if dist \<le> 0 then Inr (b, c)
             else
               bind_res (js_div 1 dist) (\<lambda>invDist.
                 let nx = x * invDist;
                     ny = y * invDist;
                     pen = dist - h_maxDist h;
                     b1 = (if pen > 0
                           then b\<lparr>b_x := b_x b - nx * pen, b_y := b_y b - ny * pen\<rparr>
                           else b);
                     tx = - ny;
                     ty = nx;
                     vn = b_vx b1 * nx + b_vy b1 * ny
                 in if vn > 0 then
                      let impulseN = - (1 + RESTITUTION_NORMAL) * vn;
                          b2 = b1\<lparr>b_vx := b_vx b1 + impulseN * nx,
                                  b_vy := b_vy b1 + impulseN * ny\<rparr>;
                          vtBallSurf = (b_vx b2 * tx + b_vy b2 * ty)
                                       + (b_angularVelocity b2 * h_rB h);
                          vtWallSurf = c_angularVelocity c * h_rC h;
                          vRelTan = vtBallSurf - vtWallSurf;
                          jt = - (1 + RESTITUTION_TANGENT) * vRelTan * h_effMass h;
                          jtInvMass = jt * h_invMass h;
                          b3 = b2\<lparr>b_vx := b_vx b2 + jtInvMass * tx,
                                  b_vy := b_vy b2 + jtInvMass * ty,
                                  b_angularVelocity :=
                                    b_angularVelocity b2 + jt * h_rB h * h_invInertiaB h\<rparr>;
                          c1 = c\<lparr>c_angularVelocity :=
                                    c_angularVelocity c - jt * h_rC h * h_invInertiaC h\<rparr>
                      in Inr (b3, c1)
                    else Inr (b1, c)))
         else Inr (b, c))"

definition sub_step :: "hoisted \<Rightarrow> Ball \<times> Container \<Rightarrow> fault + Ball \<times> Container" where
  "sub_step h bc = collide h (integrate h bc)"

text \<open>\<^verbatim>\<open>for (let i = 0; i < SUB_STEPS; i++)\<close>, by the number of iterations left.\<close>

primrec sub_steps :: "nat \<Rightarrow> hoisted \<Rightarrow> Ball \<times> Container \<Rightarrow> fault + Ball \<times> Container" where
  "sub_steps 0 h bc = Inr bc"
| "sub_steps (Suc n) h bc = bind_res (sub_step h bc) (sub_steps n h)"

text \<open>
  The four products that both versions of \<^verbatim>\<open>correctEnergy\<close> end with:
  \<^verbatim>\<open>this.ball.vx *= scale; this.ball.vy *= scale; this.ball.angularVelocity *= scale;
  this.container.angularVelocity *= scale\<close>.
\<close>

definition scale_velocities :: "SimSystem \<Rightarrow> real \<Rightarrow> SimSystem" where
  "scale_velocities this scale =
     this\<lparr>ball := (ball this)
             \<lparr>b_vx := b_vx (ball this) * scale,
              b_vy := b_vy (ball this) * scale,
              b_angularVelocity := b_angularVelocity (ball this) * scale\<rparr>,
          container := (container this)
             \<lparr>c_angularVelocity := c_angularVelocity (container this) * scale\<rparr>\<rparr>"

text \<open>
  \<^verbatim>\<open>correctEnergy(stats)\<close>. \<^verbatim>\<open>!this.initialEnergy\<close> holds for the number zero. The result is
  the system with its velocities rescaled and the returned total energy.
\<close>

definition correctEnergy :: "SimSystem \<Rightarrow> EnergyStats \<Rightarrow> fault + SimSystem \<times> real" where
  "correctEnergy this stats =
     (if initialEnergy this = 0 \<or> initialEnergy this < 0.000001 then Inr (this, total stats)
      else
        let currentKE = total stats - pe stats;
            targetKE = initialEnergy this - pe stats
        in if targetKE > 0.000001 \<and> currentKE > 0.000001 then
             bind_res (js_div targetKE currentKE) (\<lambda>q.
             bind_res (Math_sqrt q) (\<lambda>scale0.
               let scale = max 0.99 (min 1.01 scale0)
               in if \<not> Number_isFinite scale then Inr (this, total stats)
                  else
                    let this1 = (if scale \<noteq> 1 then scale_velocities this scale else this)
                    in Inr (this1, pe stats + currentKE * scale * scale)))
           else Inr (this, total stats))"

definition update :: "SimSystem \<Rightarrow> real \<Rightarrow> fault + SimSystem \<times> real" where
  "update this dt =
     bind_res (hoist dt (ball this) (container this)) (\<lambda>h.
     bind_res (sub_steps SUB_STEPS h (ball this, container this)) (\<lambda>bc.
       let this1 = this\<lparr>ball := fst bc, container := snd bc\<rparr>;
           stats = calculateEnergy this1
       in correctEnergy this1 stats))"

subsection \<open>update, first version of the file\<close>

text \<open>
  The first version computes everything inside the loop body, tests \<^verbatim>\<open>dist >= maxDist\<close>,
  pushes the ball back without testing \<^verbatim>\<open>pen\<close>, and reads the tangential relative velocity
  before the normal impulse. Its divisions are written as the source has them.
\<close>

definition integrate_v1 :: "real \<Rightarrow> Ball \<times> Container \<Rightarrow> Ball \<times> Container" where
  "integrate_v1 subDt bc =
     (let b = fst bc; c = snd bc;
          b1 = b\<lparr>b_vy := b_vy b + GRAVITY * subDt\<rparr>;
          b2 = b1\<lparr>b_x := b_x b1 + b_vx b1 * subDt\<rparr>;
          b3 = b2\<lparr>b_y := b_y b2 + b_vy b2 * subDt\<rparr>;
          b4 = b3\<lparr>b_angle := b_angle b3 + b_angularVelocity b3 * subDt\<rparr>;
          c1 = c\<lparr>c_angle := c_angle c + c_angularVelocity c * subDt\<rparr>
      in (b4, c1))"

definition collide_v1 :: "Ball \<times> Container \<Rightarrow> fault + Ball \<times> Container" where
  "collide_v1 bc =
     (let b = fst bc; c = snd bc;
          distSq = b_x b * b_x b + b_y b * b_y b
      in bind_res (Math_sqrt distSq) (\<lambda>dist.
         let maxDist = c_radius c - b_radius b
         in if dist \<ge> maxDist then
              bind_res (js_div (b_x b) dist) (\<lambda>nx.
              bind_res (js_div (b_y b) dist) (\<lambda>ny.
                let pen = dist - maxDist;
                    b1 = b\<lparr>b_x := b_x b - nx * pen, b_y := b_y b - ny * pen\<rparr>;
                    tx = - ny;
                    ty = nx;
                    vn = b_vx b1 * nx + b_vy b1 * ny;
                    vt_ball_surf = (b_vx b1 * tx + b_vy b1 * ty)
                                   + b_angularVelocity b1 * b_radius b1;
                    vt_wall_surf = c_angularVelocity c * c_radius c;
                    v_rel_tan = vt_ball_surf - vt_wall_surf
                in if vn > 0 then
                     let jn = - (1 + RESTITUTION_NORMAL) * vn * b_mass b1
                     in bind_res (js_div (jn * nx) (b_mass b1)) (\<lambda>dvx.
                        bind_res (js_div (jn * ny) (b_mass b1)) (\<lambda>dvy.
                          let b2 = b1\<lparr>b_vx := b_vx b1 + dvx, b_vy := b_vy b1 + dvy\<rparr>
                          in bind_res (js_div 1 (b_mass b2)) (\<lambda>invM.
                             bind_res (js_div (b_radius b2 * b_radius b2) (b_inertia b2)) (\<lambda>invIb.
                             bind_res (js_div (c_radius c * c_radius c) (c_inertia c)) (\<lambda>invIw.
                             bind_res (js_div 1 (invM + invIb + invIw)) (\<lambda>effMass.
                               let jt = - (1 + RESTITUTION_TANGENT) * v_rel_tan * effMass
                               in bind_res (js_div (jt * tx) (b_mass b2)) (\<lambda>jvx.
                                  bind_res (js_div (jt * ty) (b_mass b2)) (\<lambda>jvy.
                                  bind_res (js_div (jt * b_radius b2) (b_inertia b2)) (\<lambda>jav.
                                  bind_res (js_div (jt * c_radius c) (c_inertia c)) (\<lambda>jcav.
                                    Inr (b2\<lparr>b_vx := b_vx b2 + jvx,
                                            b_vy := b_vy b2 + jvy,
                                            b_angularVelocity := b_angularVelocity b2 + jav\<rparr>,
                                         c\<lparr>c_angularVelocity :=
                                              c_angularVelocity c - jcav\<rparr>)))))))))))
                   else Inr (b1, c)))
            else Inr (b, c)))"

definition sub_step_v1 :: "real \<Rightarrow> Ball \<times> Container \<Rightarrow> fault + Ball \<times> Container" where
  "sub_step_v1 subDt bc = collide_v1 (integrate_v1 subDt bc)"

primrec sub_steps_v1 :: "nat \<Rightarrow> real \<Rightarrow> Ball \<times> Container \<Rightarrow> fault + Ball \<times> Container" where
  "sub_steps_v1 0 subDt bc = Inr bc"
| "sub_steps_v1 (Suc n) subDt bc = bind_res (sub_step_v1 subDt bc) (sub_steps_v1 n subDt)"

text \<open>The first version's \<^verbatim>\<open>correctEnergy()\<close>: a tenth of the required change, no clamp, no
  result.\<close>

definition correctEnergy_v1 :: "SimSystem \<Rightarrow> fault + SimSystem" where
  "correctEnergy_v1 this =
     (if initialEnergy this = 0 \<or> initialEnergy this < 0.000001 then Inr this
      else
        let stats = calculateEnergy this;
            currentKE = total stats - pe stats;
            targetKE = initialEnergy this - pe stats
        in if targetKE > 0.000001 \<and> currentKE > 0.000001 then
             bind_res (js_div targetKE currentKE) (\<lambda>q.
             bind_res (Math_sqrt q) (\<lambda>reqScale.
               let smoothScale = 1 + (reqScale - 1) * 0.1
               in Inr (scale_velocities this smoothScale)))
           else Inr this)"

definition update_v1 :: "SimSystem \<Rightarrow> real \<Rightarrow> fault + SimSystem" where
  "update_v1 this dt =
     (let subDt = dt / real SUB_STEPS
      in bind_res (sub_steps_v1 SUB_STEPS subDt (ball this, container this)) (\<lambda>bc.
           correctEnergy_v1 (this\<lparr>ball := fst bc, container := snd bc\<rparr>)))"

section \<open>The worker\<close>

text \<open>
  The message handler of the second version of the file, which the specification
  describes. (The first version's handler posts the objects of \<^verbatim>\<open>serialize()\<close> instead of a
  buffer; no property below is about it.) The ids of a message are integers.
\<close>

text \<open>
  An \<^verbatim>\<open>ArrayBuffer\<close> seen through a \<^verbatim>\<open>Float32Array\<close>: its byte length and the 32-bit
  float at each index below \<open>byteLength div 4\<close>. Storing a number in a \<^verbatim>\<open>Float32Array\<close>
  converts it to the nearest 32-bit float; this conversion belongs to the JavaScript
  runtime and is the parameter \<open>f32\<close> of everything that writes to a buffer. A store at
  an index outside the array is ignored, as typed arrays do.
\<close>

record ArrayBuffer =
  byteLength :: nat
  floats :: "nat \<Rightarrow> real"

definition new_ArrayBuffer :: "nat \<Rightarrow> ArrayBuffer" where
  "new_ArrayBuffer n = \<lparr>byteLength = n, floats = (\<lambda>_. 0)\<rparr>"

definition set_float :: "(real \<Rightarrow> real) \<Rightarrow> ArrayBuffer \<Rightarrow> nat \<Rightarrow> real \<Rightarrow> ArrayBuffer" where
  "set_float f32 out i v =
     (if i < byteLength out div 4 then out\<lparr>floats := (floats out)(i := f32 v)\<rparr> else out)"

definition contents :: "ArrayBuffer \<Rightarrow> real list" where
  "contents buf = map (floats buf) [0..<byteLength buf div 4]"

text \<open>
  The field \<^verbatim>\<open>buffer\<close> of a message: an \<^verbatim>\<open>ArrayBuffer\<close>, or anything else (also
  \<^verbatim>\<open>undefined\<close>), which \<^verbatim>\<open>instanceof ArrayBuffer\<close> rejects.
\<close>

datatype buffer_arg = NotArrayBuffer | IsArrayBuffer ArrayBuffer

text \<open>Which object the reply carries: the message's buffer, or one made by
  \<^verbatim>\<open>new ArrayBuffer\<close>.\<close>

datatype buffer_origin = Reused | Allocated

definition choose_buffer :: "buffer_arg \<Rightarrow> nat \<Rightarrow> buffer_origin \<times> ArrayBuffer" where
  "choose_buffer arg expectedFloats =
     (case arg of
        NotArrayBuffer \<Rightarrow> (Allocated, new_ArrayBuffer (expectedFloats * 4))
      | IsArrayBuffer buffer \<Rightarrow>
          if byteLength buffer \<noteq> expectedFloats * 4
          then (Allocated, new_ArrayBuffer (expectedFloats * 4))
          else (Reused, buffer))"

text \<open>The four stores \<^verbatim>\<open>out[base] = s.ball.x; ... out[base + 3] = s.container.angle\<close>.\<close>

definition write_state :: "(real \<Rightarrow> real) \<Rightarrow> ArrayBuffer \<Rightarrow> nat \<Rightarrow> SimSystem \<Rightarrow> ArrayBuffer" where
  "write_state f32 out base s =
     (let out1 = set_float f32 out base (b_x (ball s));
          out2 = set_float f32 out1 (base + 1) (b_y (ball s));
          out3 = set_float f32 out2 (base + 2) (b_angle (ball s))
      in set_float f32 out3 (base + 3) (c_angle (container s)))"

text \<open>
  A message. A field that is absent is \<open>None\<close>; \<^verbatim>\<open>msg.data?.systemIds\<close> and
  \<^verbatim>\<open>msg.data?.dt\<close> are the fallbacks the handler reads. The correlation token is of any
  type.
\<close>

record 'tok message =
  m_type :: string
  m_systemIds :: "int list option"
  m_data_systemIds :: "int list option"
  m_dt :: "real option"
  m_data_dt :: "real option"
  m_batchId :: 'tok
  m_buffer :: buffer_arg

datatype 'tok response =
    Initialized
  | Updated 'tok buffer_origin ArrayBuffer real
  | WasReset 'tok buffer_origin ArrayBuffer real

record worker =
  systems :: "SimSystem list"
  systemIds :: "int list"

text \<open>The loop of the \<^verbatim>\<open>update\<close> case. An absent \<^verbatim>\<open>dt\<close> makes \<^verbatim>\<open>s.update(dt)\<close> compute with
  \<^verbatim>\<open>undefined\<close>.\<close>

function update_loop ::
  "(real \<Rightarrow> real) \<Rightarrow> real option \<Rightarrow> nat \<Rightarrow> SimSystem list \<Rightarrow> ArrayBuffer \<Rightarrow> real
     \<Rightarrow> fault + SimSystem list \<times> ArrayBuffer \<times> real" where
  "update_loop f32 dt i ss out totalEnergy =
     (if i < length ss then
        (case (case dt of None \<Rightarrow> Inl NonFinite | Some d \<Rightarrow> update (ss ! i) d) of
           Inl e \<Rightarrow> Inl e
         | Inr r \<Rightarrow>
             update_loop f32 dt (i + 1) (ss[i := fst r])
               (write_state f32 out (i * STATE_STRIDE) (fst r)) (totalEnergy + snd r))
      else Inr (ss, out, totalEnergy))"
  by pat_completeness auto
termination
  by (relation "measure (\<lambda>(f32, dt, i, ss, out, totalEnergy). length ss - i)") auto

text \<open>The loop of the \<^verbatim>\<open>reset\<close> case.\<close>

function reset_loop ::
  "(real \<Rightarrow> real) \<Rightarrow> nat \<Rightarrow> SimSystem list \<Rightarrow> ArrayBuffer \<Rightarrow> real
     \<Rightarrow> SimSystem list \<times> ArrayBuffer \<times> real" where
  "reset_loop f32 i ss out totalEnergy =
     (if i < length ss then
        (let s = reset (ss ! i) (sys_id (ss ! i))
         in reset_loop f32 (i + 1) (ss[i := s])
              (write_state f32 out (i * STATE_STRIDE) s) (totalEnergy + initialEnergy s))
      else (ss, out, totalEnergy))"
  by pat_completeness auto
termination
  by (relation "measure (\<lambda>(f32, i, ss, out, totalEnergy). length ss - i)") auto

text \<open>Both loops are unfolded by hand, one iteration at a time.\<close>

declare update_loop.simps [simp del] reset_loop.simps [simp del]

text \<open>The ids the \<^verbatim>\<open>init\<close> case reads:
  \<^verbatim>\<open>msg.systemIds ?? msg.data?.systemIds ?? []\<close>.\<close>

definition msg_systemIds :: "'tok message \<Rightarrow> int list" where
  "msg_systemIds msg =
     (case m_systemIds msg of
        Some l \<Rightarrow> l
      | None \<Rightarrow> (case m_data_systemIds msg of Some l \<Rightarrow> l | None \<Rightarrow> []))"


text \<open>The time delta the \<^verbatim>\<open>update\<close> case reads: \<^verbatim>\<open>msg.dt ?? msg.data?.dt\<close>.\<close>

definition msg_dt :: "'tok message \<Rightarrow> real option" where
  "msg_dt msg = (case m_dt msg of Some d \<Rightarrow> Some d | None \<Rightarrow> m_data_dt msg)"

text \<open>
  \<^verbatim>\<open>self.onmessage\<close>: the new worker state and the message posted, if any. A message of
  any other type is ignored.
\<close>

definition onmessage ::
  "(real \<Rightarrow> real) \<Rightarrow> worker \<Rightarrow> 'tok message \<Rightarrow> fault + worker \<times> 'tok response option" where
  "onmessage f32 w msg =
     (if m_type msg = ''init'' then
        let ids = msg_systemIds msg
        in Inr (\<lparr>systems = map new_SimSystem ids, systemIds = ids\<rparr>, Some Initialized)
      else if m_type msg = ''update'' then
        let dt = msg_dt msg;
            batchId = m_batchId msg;
            expectedFloats = length (systems w) * STATE_STRIDE;
            chosen = choose_buffer (m_buffer msg) expectedFloats
        in bind_res (update_loop f32 dt 0 (systems w) (snd chosen) 0) (\<lambda>r.
             Inr (w\<lparr>systems := fst r\<rparr>,
                  Some (Updated batchId (fst chosen) (fst (snd r)) (snd (snd r)))))
      else if m_type msg = ''reset'' then
        let batchId = m_batchId msg;
            expectedFloats = length (systems w) * STATE_STRIDE;
            chosen = choose_buffer (m_buffer msg) expectedFloats;
            r = reset_loop f32 0 (systems w) (snd chosen) 0
        in Inr (w\<lparr>systems := fst r\<rparr>,
                Some (WasReset batchId (fst chosen) (fst (snd r)) (snd (snd r))))
      else Inr (w, None))"

section \<open>The same code in IEEE-754 doubles\<close>

text \<open>
  Where rounding or a value that is not a finite number decides a property, the second
  version of \<^verbatim>\<open>SimSystem\<close> is modelled once more with the numbers JavaScript computes
  with: an IEEE-754 double is a finite value \<open>Num r\<close>, \<open>PosInf\<close>, \<open>NegInf\<close> or \<open>NaN\<close>, and
  every arithmetic operation rounds its exact result to the nearest double, ties to even,
  overflowing to an infinity. The two zeros are not told apart (\<open>Num 0\<close> is both); they
  differ only as divisors, and a division by zero takes the zero as positive.
\<close>

datatype float64 = Num real | PosInf | NegInf | NaN

definition round_half_even :: "real \<Rightarrow> int" where
  "round_half_even x =
     (let f = \<lfloor>x\<rfloor>; d = x - of_int f
      in if d < 1 / 2 then f else if 1 / 2 < d then f + 1 else if even f then f else f + 1)"

text \<open>
  Rounding to 53 significant bits: the exponent is that of \<open>x\<close>, not below the smallest
  normal one, and \<open>x\<close> is rounded to a multiple of the unit in the last place.
\<close>

definition round64 :: "real \<Rightarrow> float64" where
  "round64 x =
     (if x = 0 then Num 0
      else
        let e = max \<lfloor>log 2 \<bar>x\<bar>\<rfloor> (- 1022);
            q = 2 powi (e - 52);
            r = q * of_int (round_half_even (x / q))
        in if 2 ^ 1024 \<le> \<bar>r\<bar> then (if 0 < x then PosInf else NegInf) else Num r)"

text \<open>A decimal literal of the source is the double nearest to it.\<close>

definition lit64 :: "real \<Rightarrow> float64" where
  "lit64 x = round64 x"

fun neg64 :: "float64 \<Rightarrow> float64" where
  "neg64 (Num a) = Num (- a)"
| "neg64 PosInf = NegInf"
| "neg64 NegInf = PosInf"
| "neg64 NaN = NaN"

fun add64 :: "float64 \<Rightarrow> float64 \<Rightarrow> float64" where
  "add64 (Num a) (Num b) = round64 (a + b)"
| "add64 NaN b = NaN"
| "add64 a NaN = NaN"
| "add64 PosInf NegInf = NaN"
| "add64 NegInf PosInf = NaN"
| "add64 PosInf b = PosInf"
| "add64 NegInf b = NegInf"
| "add64 a PosInf = PosInf"
| "add64 a NegInf = NegInf"

definition sub64 :: "float64 \<Rightarrow> float64 \<Rightarrow> float64" where
  "sub64 a b = add64 a (neg64 b)"

fun mul64 :: "float64 \<Rightarrow> float64 \<Rightarrow> float64" where
  "mul64 (Num a) (Num b) = round64 (a * b)"
| "mul64 NaN b = NaN"
| "mul64 a NaN = NaN"
| "mul64 (Num a) PosInf = (if a = 0 then NaN else if 0 < a then PosInf else NegInf)"
| "mul64 (Num a) NegInf = (if a = 0 then NaN else if 0 < a then NegInf else PosInf)"
| "mul64 PosInf (Num b) = (if b = 0 then NaN else if 0 < b then PosInf else NegInf)"
| "mul64 NegInf (Num b) = (if b = 0 then NaN else if 0 < b then NegInf else PosInf)"
| "mul64 PosInf PosInf = PosInf"
| "mul64 PosInf NegInf = NegInf"
| "mul64 NegInf PosInf = NegInf"
| "mul64 NegInf NegInf = PosInf"

fun div64 :: "float64 \<Rightarrow> float64 \<Rightarrow> float64" where
  "div64 (Num a) (Num b) =
     (if b = 0 then (if a = 0 then NaN else if 0 < a then PosInf else NegInf)
      else round64 (a / b))"
| "div64 NaN b = NaN"
| "div64 a NaN = NaN"
| "div64 (Num a) PosInf = Num 0"
| "div64 (Num a) NegInf = Num 0"
| "div64 PosInf (Num b) = (if b < 0 then NegInf else PosInf)"
| "div64 NegInf (Num b) = (if b < 0 then PosInf else NegInf)"
| "div64 PosInf PosInf = NaN"
| "div64 PosInf NegInf = NaN"
| "div64 NegInf PosInf = NaN"
| "div64 NegInf NegInf = NaN"

fun sqrt64 :: "float64 \<Rightarrow> float64" where
  "sqrt64 (Num a) = (if a < 0 then NaN else round64 (sqrt a))"
| "sqrt64 PosInf = PosInf"
| "sqrt64 NegInf = NaN"
| "sqrt64 NaN = NaN"

text \<open>Comparisons: every comparison with \<open>NaN\<close> is false.\<close>

fun less64 :: "float64 \<Rightarrow> float64 \<Rightarrow> bool" where
  "less64 (Num a) (Num b) = (a < b)"
| "less64 NaN b = False"
| "less64 a NaN = False"
| "less64 PosInf b = False"
| "less64 a NegInf = False"
| "less64 a PosInf = True"
| "less64 NegInf b = True"

fun eq64 :: "float64 \<Rightarrow> float64 \<Rightarrow> bool" where
  "eq64 (Num a) (Num b) = (a = b)"
| "eq64 PosInf PosInf = True"
| "eq64 NegInf NegInf = True"
| "eq64 a b = False"

definition greater64 :: "float64 \<Rightarrow> float64 \<Rightarrow> bool" where
  "greater64 a b = less64 b a"



text \<open>\<^verbatim>\<open>Math.max\<close> and \<^verbatim>\<open>Math.min\<close> of two numbers: \<open>NaN\<close> if either is.\<close>

definition Math_max64 :: "float64 \<Rightarrow> float64 \<Rightarrow> float64" where
  "Math_max64 a b = (if a = NaN \<or> b = NaN then NaN else if less64 a b then b else a)"

definition Math_min64 :: "float64 \<Rightarrow> float64 \<Rightarrow> float64" where
  "Math_min64 a b = (if a = NaN \<or> b = NaN then NaN else if less64 b a then b else a)"

fun isFinite64 :: "float64 \<Rightarrow> bool" where
  "isFinite64 (Num a) = True"
| "isFinite64 a = False"

text \<open>\<^verbatim>\<open>!x\<close> holds for zero and for \<open>NaN\<close>.\<close>

definition falsy64 :: "float64 \<Rightarrow> bool" where
  "falsy64 a \<longleftrightarrow> a = Num 0 \<or> a = NaN"

definition GRAVITY64 :: float64 where "GRAVITY64 = mul64 (lit64 9.81) (Num 100)"

record Ball64 =
  x64 :: float64
  y64 :: float64
  vx64 :: float64
  vy64 :: float64
  angle64 :: float64
  angularVelocity64 :: float64
  radius64 :: float64
  mass64 :: float64
  inertia64 :: float64

record Container64 =
  c_angle64 :: float64
  c_angularVelocity64 :: float64
  c_radius64 :: float64
  c_mass64 :: float64
  c_inertia64 :: float64

record SimSystem64 =
  id64 :: int
  ball64 :: Ball64
  container64 :: Container64
  initialEnergy64 :: float64

record EnergyStats64 =
  total64 :: float64
  pe64 :: float64

definition calculateEnergy64 :: "SimSystem64 \<Rightarrow> EnergyStats64" where
  "calculateEnergy64 this =
     (let b = ball64 this;
          c = container64 this;
          v2 = add64 (mul64 (vx64 b) (vx64 b)) (mul64 (vy64 b) (vy64 b));
          keLin = mul64 (mul64 (lit64 0.5) (mass64 b)) v2;
          keRotB = mul64 (mul64 (lit64 0.5) (inertia64 b))
                     (mul64 (angularVelocity64 b) (angularVelocity64 b));
          keRotC = mul64 (mul64 (lit64 0.5) (c_inertia64 c))
                     (mul64 (c_angularVelocity64 c) (c_angularVelocity64 c));
          pe = mul64 (mul64 (neg64 (mass64 b)) GRAVITY64) (y64 b)
      in \<lparr>total64 = add64 (add64 (add64 keLin keRotB) keRotC) pe, pe64 = pe\<rparr>)"











definition scale_velocities64 :: "SimSystem64 \<Rightarrow> float64 \<Rightarrow> SimSystem64" where
  "scale_velocities64 this scale =
     this\<lparr>ball64 := (ball64 this)
             \<lparr>vx64 := mul64 (vx64 (ball64 this)) scale,
              vy64 := mul64 (vy64 (ball64 this)) scale,
              angularVelocity64 := mul64 (angularVelocity64 (ball64 this)) scale\<rparr>,
          container64 := (container64 this)
             \<lparr>c_angularVelocity64 := mul64 (c_angularVelocity64 (container64 this)) scale\<rparr>\<rparr>"

text \<open>The scale before the clamp, \<^verbatim>\<open>Math.sqrt(targetKE / currentKE)\<close>, and after it.\<close>

definition raw_scale64 :: "SimSystem64 \<Rightarrow> EnergyStats64 \<Rightarrow> float64" where
  "raw_scale64 this stats =
     sqrt64 (div64 (sub64 (initialEnergy64 this) (pe64 stats))
                   (sub64 (total64 stats) (pe64 stats)))"

definition clamped_scale64 :: "SimSystem64 \<Rightarrow> EnergyStats64 \<Rightarrow> float64" where
  "clamped_scale64 this stats =
     Math_max64 (lit64 0.99) (Math_min64 (lit64 1.01) (raw_scale64 this stats))"

definition correctEnergy64 :: "SimSystem64 \<Rightarrow> EnergyStats64 \<Rightarrow> SimSystem64 \<times> float64" where
  "correctEnergy64 this stats =
     (if falsy64 (initialEnergy64 this) \<or> less64 (initialEnergy64 this) (lit64 0.000001)
      then (this, total64 stats)
      else
        let currentKE = sub64 (total64 stats) (pe64 stats);
            targetKE = sub64 (initialEnergy64 this) (pe64 stats)
        in if greater64 targetKE (lit64 0.000001) \<and> greater64 currentKE (lit64 0.000001) then
             let scale0 = sqrt64 (div64 targetKE currentKE);
                 scale = Math_max64 (lit64 0.99) (Math_min64 (lit64 1.01) scale0)
             in if \<not> isFinite64 scale then (this, total64 stats)
                else
                  let this1 = (if \<not> eq64 scale (Num 1) then scale_velocities64 this scale
                               else this)
                  in (this1, add64 (pe64 stats) (mul64 (mul64 currentKE scale) scale))
           else (this, total64 stats))"


text \<open>The first version's \<^verbatim>\<open>correctEnergy()\<close> in doubles; it has no finiteness test.\<close>

definition correctEnergy64_v1 :: "SimSystem64 \<Rightarrow> SimSystem64" where
  "correctEnergy64_v1 this =
     (if falsy64 (initialEnergy64 this) \<or> less64 (initialEnergy64 this) (lit64 0.000001)
      then this
      else
        let stats = calculateEnergy64 this;
            currentKE = sub64 (total64 stats) (pe64 stats);
            targetKE = sub64 (initialEnergy64 this) (pe64 stats)
        in if greater64 targetKE (lit64 0.000001) \<and> greater64 currentKE (lit64 0.000001) then
             let reqScale = sqrt64 (div64 targetKE currentKE);
                 smoothScale = add64 (Num 1) (mul64 (sub64 reqScale (Num 1)) (lit64 0.1))
             in scale_velocities64 this smoothScale
           else this)"

section \<open>Notions used in the properties\<close>

text \<open>The container's centre is the origin, so this is the distance from it to the ball.\<close>

definition dist_center :: "Ball \<Rightarrow> real" where
  "dist_center b = sqrt (b_x b * b_x b + b_y b * b_y b)"

text \<open>
  The fields that only \<^verbatim>\<open>reset\<close> writes, with the values it gives them. Every system the
  worker holds was made by the constructor, so it has them; \<open>update\<close> keeps them.
\<close>

definition params_ok :: "Ball \<Rightarrow> Container \<Rightarrow> bool" where
  "params_ok b c \<longleftrightarrow>
     b_radius b = BALL_RADIUS \<and> b_mass b = BALL_MASS
     \<and> b_inertia b = 0.5 * BALL_MASS * (BALL_RADIUS * BALL_RADIUS)
     \<and> c_radius c = CONTAINER_RADIUS \<and> c_mass c = CONTAINER_MASS
     \<and> c_inertia c = CONTAINER_MASS * (CONTAINER_RADIUS * CONTAINER_RADIUS)"

text \<open>The condition under which \<^verbatim>\<open>correctEnergy\<close> rescales the velocities.\<close>

definition corrects :: "SimSystem \<Rightarrow> EnergyStats \<Rightarrow> bool" where
  "corrects this stats \<longleftrightarrow>
     0.000001 \<le> initialEnergy this \<and> 0.000001 < initialEnergy this - pe stats
     \<and> 0.000001 < total stats - pe stats"

definition system_ok :: "SimSystem \<Rightarrow> bool" where
  "system_ok s \<longleftrightarrow> params_ok (ball s) (container s)"

definition worker_ok :: "worker \<Rightarrow> bool" where
  "worker_ok w \<longleftrightarrow> list_all system_ok (systems w)"

text \<open>
  The state buffer's layout: the float at index \<open>k\<close> belongs to the system at
  \<open>k div 4\<close> and is its ball's x, y, angle or its container's angle, as \<open>k mod 4\<close> is
  0, 1, 2 or 3.
\<close>

definition state_cell :: "(real \<Rightarrow> real) \<Rightarrow> SimSystem list \<Rightarrow> nat \<Rightarrow> real" where
  "state_cell f32 ss k =
     (let s = ss ! (k div 4)
      in f32 (if k mod 4 = 0 then b_x (ball s)
              else if k mod 4 = 1 then b_y (ball s)
              else if k mod 4 = 2 then b_angle (ball s)
              else c_angle (container s)))"


text \<open>What the \<^verbatim>\<open>reset\<close> case does to each system: \<^verbatim>\<open>s.reset(s.id)\<close>.\<close>

definition reset_own :: "SimSystem \<Rightarrow> SimSystem" where
  "reset_own s = reset s (sys_id s)"

text \<open>The worker before any message: \<^verbatim>\<open>let systems = []; let systemIds = [];\<close>.\<close>

definition initial_worker :: worker where
  "initial_worker = \<lparr>systems = [], systemIds = []\<rparr>"

text \<open>A worker that holds the one system of id 0, as made by the constructor.\<close>

definition one_worker :: worker where
  "one_worker = \<lparr>systems = [new_SimSystem 0], systemIds = [0]\<rparr>"

text \<open>Messages as the coordinator sends them, for the examples.\<close>

definition init_message :: "int list \<Rightarrow> unit message" where
  "init_message ids = \<lparr>m_type = ''init'', m_systemIds = Some ids, m_data_systemIds = None,
     m_dt = None, m_data_dt = None, m_batchId = (), m_buffer = NotArrayBuffer\<rparr>"

definition update_message :: "real \<Rightarrow> buffer_arg \<Rightarrow> unit message" where
  "update_message dt buf = \<lparr>m_type = ''update'', m_systemIds = None, m_data_systemIds = None,
     m_dt = Some dt, m_data_dt = None, m_batchId = (), m_buffer = buf\<rparr>"

definition reset_message :: "buffer_arg \<Rightarrow> unit message" where
  "reset_message buf = \<lparr>m_type = ''reset'', m_systemIds = None, m_data_systemIds = None,
     m_dt = None, m_data_dt = None, m_batchId = (), m_buffer = buf\<rparr>"

text \<open>The parts of a reply.\<close>

fun reply_buffer :: "'tok response \<Rightarrow> ArrayBuffer option" where
  "reply_buffer Initialized = None"
| "reply_buffer (Updated t orig buf e) = Some buf"
| "reply_buffer (WasReset t orig buf e) = Some buf"


fun reply_energy :: "'tok response \<Rightarrow> real option" where
  "reply_energy Initialized = None"
| "reply_energy (Updated t orig buf e) = Some e"
| "reply_energy (WasReset t orig buf e) = Some e"

text \<open>States and values for the examples: a system falling at speed 10, a ball at the
  centre that moves up by exactly what gravity adds in one sub-step, and the hoisted values
  of the constructor's parameters for \<open>dt = 1/30\<close>.\<close>

definition moving_system :: SimSystem where
  "moving_system = (new_SimSystem 0)\<lparr>ball := (ball (new_SimSystem 0))\<lparr>b_vy := 10\<rparr>\<rparr>"

definition centre_ball :: Ball where
  "centre_ball = (ball (new_SimSystem 0))\<lparr>b_x := 0, b_y := 0, b_vy := - (327 / 160)\<rparr>"

definition centre_hoisted :: hoisted where
  "centre_hoisted = \<lparr>h_subDt = 1 / 480, h_gravitySubDt = 327 / 160, h_rB = 30, h_rC = 300,
        h_maxDist = 270, h_maxDistSq = 72900, h_invMass = 1 / 10,
        h_invInertiaB = 1 / 4500, h_invInertiaC = 1 / 18000000,
        h_effMass = 200 / 61\<rparr>"

text \<open>A system below its starting height with a quarter of the kinetic energy that its
  baseline asks for there.\<close>

definition lagging_system :: SimSystem where
  "lagging_system = (new_SimSystem 0)\<lparr>ball := (ball (new_SimSystem 0))
      \<lparr>b_y := - 220 + 200 / 981, b_vy := 10\<rparr>\<rparr>"

text \<open>
  A ball that reaches the wall during one sub-step of \<open>dt = 1/30\<close>, moving and spinning,
  in a spinning container: the integration carries it to \<open>(168, 224)\<close>, at distance 280;
  and the state that sub-step ends in.
\<close>

definition contact_state :: "Ball \<times> Container" where
  "contact_state =
     ((ball (new_SimSystem 0))\<lparr>b_x := 26879 / 160, b_y := 26879 / 120, b_vx := 3,
         b_vy := 313 / 160, b_angularVelocity := 1\<rparr>,
      (container (new_SimSystem 0))\<lparr>c_angularVelocity := 2\<rparr>)"

definition contact_result :: "Ball \<times> Container" where
  "contact_result =
     ((ball (new_SimSystem 0))\<lparr>b_x := 162, b_y := 216, b_vx := - (18423 / 61),
         b_vy := 13436 / 61, b_angle := 1 / 480, b_angularVelocity := 1581 / 61\<rparr>,
      (container (new_SimSystem 0))\<lparr>c_angle := 1 / 240, c_angularVelocity := 591 / 305\<rparr>)"


text \<open>
  States and values for the examples in doubles: a ball with the constructor's parameters
  that moves vertically only, the container at rest, and the hoisted values of
  \<^verbatim>\<open>update(1)\<close>.
\<close>

definition falling64 :: "float64 \<Rightarrow> float64 \<Rightarrow> float64 \<Rightarrow> Ball64" where
  "falling64 x y vy =
     \<lparr>x64 = x, y64 = y, vx64 = Num 0, vy64 = vy, angle64 = Num 0, angularVelocity64 = Num 0,
      radius64 = Num 30, mass64 = Num 10, inertia64 = Num 4500\<rparr>"

definition still_container64 :: Container64 where
  "still_container64 =
     \<lparr>c_angle64 = Num 0, c_angularVelocity64 = Num 0, c_radius64 = Num 300, c_mass64 = Num 200,
      c_inertia64 = Num 18000000\<rparr>"



text \<open>
  \<^verbatim>\<open>correctEnergy\<close> reaches the computation of the scale: the baseline is stored and at
  least \<open>1e-6\<close>, and the target and current kinetic energies exceed \<open>1e-6\<close>.
\<close>

definition corrects64 :: "SimSystem64 \<Rightarrow> EnergyStats64 \<Rightarrow> bool" where
  "corrects64 this stats \<longleftrightarrow>
     \<not> (falsy64 (initialEnergy64 this) \<or> less64 (initialEnergy64 this) (lit64 0.000001))
     \<and> greater64 (sub64 (initialEnergy64 this) (pe64 stats)) (lit64 0.000001)
     \<and> greater64 (sub64 (total64 stats) (pe64 stats)) (lit64 0.000001)"


text \<open>
  A system at the centre whose stored baseline energy and horizontal velocity are
  \<open>+Infinity\<close>: its kinetic energy is \<open>+Infinity\<close> too, and the quotient is \<open>NaN\<close>.
\<close>

definition infinite_baseline64 :: SimSystem64 where
  "infinite_baseline64 =
     \<lparr>id64 = 0, ball64 = (falling64 (Num 0) (Num 0) (Num 0))\<lparr>vx64 := PosInf\<rparr>,
      container64 = still_container64, initialEnergy64 = PosInf\<rparr>"

section \<open>Basic facts\<close>

lemmas consts_defs = SUB_STEPS_def GRAVITY_def CONTAINER_RADIUS_def BALL_RADIUS_def
  BALL_MASS_def CONTAINER_MASS_def RESTITUTION_NORMAL_def RESTITUTION_TANGENT_def
  NUM_SYSTEMS_def STATE_STRIDE_def

subsection \<open>Arithmetic of the wall contact\<close>

lemma push_back:
  assumes d: "d = sqrt (x * x + y * y)" and pos: "0 < d" and m: "0 \<le> m"
  shows "sqrt ((x - x * (1 / d) * (d - m)) * (x - x * (1 / d) * (d - m))
             + (y - y * (1 / d) * (d - m)) * (y - y * (1 / d) * (d - m))) = m"
proof -
  have dd: "d * d = x * x + y * y"
    using d by (metis abs_of_nonneg add_nonneg_nonneg real_sqrt_mult_self zero_le_square)
  have ex: "x - x * (1 / d) * (d - m) = x * (m / d)" using pos by (simp add: field_simps)
  have ey: "y - y * (1 / d) * (d - m) = y * (m / d)" using pos by (simp add: field_simps)
  have "x * (m / d) * (x * (m / d)) + y * (m / d) * (y * (m / d))
          = (m / d) * (m / d) * (x * x + y * y)"
    by (simp add: algebra_simps add_divide_distrib)
  also have "\<dots> = (m / d) * (m / d) * (d * d)" by (simp only: dd)
  also have "\<dots> = m * m" using pos by simp
  finally have "sqrt (x * (m / d) * (x * (m / d)) + y * (m / d) * (y * (m / d))) = sqrt (m * m)"
    by simp
  also have "\<dots> = m" using m by simp
  finally show ?thesis unfolding ex ey .
qed

lemma Math_sqrt_sumsq: "Math_sqrt (x * x + y * y) = Inr (sqrt (x * x + y * y))"
  by (simp add: Math_sqrt_def not_less)

subsection \<open>The loop body never leaves the finite numbers\<close>

lemma collide_total: "\<exists>bc'. collide h bc = Inr bc'"
  by (simp add: collide_def Let_def bind_res_def Math_sqrt_sumsq js_div_def)

lemma sub_step_total: "\<exists>bc'. sub_step h bc = Inr bc'"
  unfolding sub_step_def by (rule collide_total)

lemma sub_steps_total: "\<exists>bc'. sub_steps n h bc = Inr bc'"
proof (induction n arbitrary: bc)
  case 0
  show ?case by simp
next
  case (Suc n)
  obtain bc1 where "sub_step h bc = Inr bc1" using sub_step_total by blast
  then show ?case using Suc [of bc1] by (simp add: bind_res_def)
qed

subsection \<open>What the loop body keeps\<close>

lemma integrate_params:
  "params_ok (fst (integrate h bc)) (snd (integrate h bc)) = params_ok (fst bc) (snd bc)"
  by (simp add: integrate_def Let_def params_ok_def)

lemma collide_params:
  assumes "collide h bc = Inr bc'"
  shows "params_ok (fst bc') (snd bc') = params_ok (fst bc) (snd bc)"
  using assms
  by (auto simp add: collide_def Let_def bind_res_def Math_sqrt_sumsq js_div_def params_ok_def
      split: if_splits)

lemma sub_step_params:
  assumes "sub_step h bc = Inr bc'"
  shows "params_ok (fst bc') (snd bc') = params_ok (fst bc) (snd bc)"
  using assms collide_params [of h "integrate h bc" bc'] integrate_params [of h bc]
  by (simp add: sub_step_def)

lemma sub_steps_params:
  "sub_steps n h bc = Inr bc' \<Longrightarrow> params_ok (fst bc') (snd bc') = params_ok (fst bc) (snd bc)"
proof (induction n arbitrary: bc)
  case 0
  then show ?case by simp
next
  case (Suc n)
  obtain bc1 where s: "sub_step h bc = Inr bc1" using sub_step_total by blast
  with Suc.prems have "sub_steps n h bc1 = Inr bc'" by (simp add: bind_res_def)
  then show ?case using Suc.IH sub_step_params [OF s] by simp
qed

subsection \<open>The ball ends each loop body inside the wall\<close>

lemma collide_inside:
  assumes m: "0 \<le> h_maxDist h" and sq: "h_maxDistSq h = h_maxDist h * h_maxDist h"
    and r: "collide h bc = Inr bc'"
  shows "dist_center (fst bc') \<le> h_maxDist h"
proof -
  let ?x = "b_x (fst bc)" and ?y = "b_y (fst bc)"
  let ?d = "sqrt (?x * ?x + ?y * ?y)"
  show ?thesis
  proof (cases "h_maxDistSq h \<le> ?x * ?x + ?y * ?y")
    case False
    then have "bc' = bc" using r by (simp add: collide_def Let_def)
    moreover have "?d < h_maxDist h"
      using False sq m by (metis not_le real_sqrt_less_iff real_sqrt_abs2 abs_of_nonneg)
    ultimately show ?thesis by (simp add: dist_center_def)
  next
    case True
    then have ge: "h_maxDist h \<le> ?d"
      using sq m by (metis real_sqrt_le_iff real_sqrt_abs2 abs_of_nonneg)
    show ?thesis
    proof (cases "?d \<le> 0")
      case True
      then have "bc' = bc" using r \<open>h_maxDistSq h \<le> _\<close>
        by (auto simp add: collide_def Let_def bind_res_def Math_sqrt_sumsq)
      then show ?thesis using True m unfolding dist_center_def by (metis order_trans)
    next
      case False
      then have pos: "0 < ?d" by simp
      show ?thesis
      proof (cases "?d - h_maxDist h > 0")
        case True
        have "dist_center (fst bc') = h_maxDist h"
          using r \<open>h_maxDistSq h \<le> _\<close> False True push_back [OF refl pos m]
          by (auto simp add: collide_def Let_def bind_res_def Math_sqrt_sumsq js_div_def
              dist_center_def split: if_splits)
        then show ?thesis by simp
      next
        case F: False
        then have "?d = h_maxDist h" using ge by simp
        moreover have "dist_center (fst bc') = ?d"
          using r \<open>h_maxDistSq h \<le> _\<close> False F
          by (auto simp add: collide_def Let_def bind_res_def Math_sqrt_sumsq js_div_def
              dist_center_def split: if_splits)
        ultimately show ?thesis by simp
      qed
    qed
  qed
qed

lemma sub_steps_inside:
  assumes m: "0 \<le> h_maxDist h" and sq: "h_maxDistSq h = h_maxDist h * h_maxDist h"
  shows "sub_steps (Suc n) h bc = Inr bc' \<Longrightarrow> dist_center (fst bc') \<le> h_maxDist h"
proof (induction n arbitrary: bc)
  case 0
  then have "collide h (integrate h bc) = Inr bc'"
    by (auto simp add: bind_res_def sub_step_def split: sum.splits)
  then show ?case using collide_inside [OF m sq] by blast
next
  case (Suc n)
  obtain bc1 where s: "sub_step h bc = Inr bc1" using sub_step_total by blast
  with Suc.prems have "sub_steps (Suc n) h bc1 = Inr bc'" by (simp add: bind_res_def)
  then show ?case using Suc.IH by blast
qed

subsection \<open>The hoisted values of a system with the constructor's parameters\<close>

lemma hoist_ok:
  assumes "params_ok b c"
  shows "\<exists>h. hoist dt b c = Inr h \<and> h_subDt h = dt / 16
           \<and> h_gravitySubDt h = 981 * (dt / 16) \<and> h_rB h = 30 \<and> h_rC h = 300
           \<and> h_maxDist h = 270 \<and> h_maxDistSq h = 72900 \<and> h_invMass h = 1 / 10
           \<and> h_invInertiaB h = 1 / 4500 \<and> h_invInertiaC h = 1 / 18000000
           \<and> h_effMass h = 200 / 61"
  using assms
  by (simp add: hoist_def params_ok_def Let_def bind_res_def js_div_def consts_defs)

subsection \<open>correctEnergy\<close>

lemma ratio_sqrt:
  assumes "0.000001 < t" and "0.000001 < (k::real)"
  shows "bind_res (js_div t k) (\<lambda>q. bind_res (Math_sqrt q) f) = f (sqrt (t / k))"
proof -
  have "k \<noteq> 0" and "\<not> t / k < 0" using assms by (simp_all add: not_less)
  then show ?thesis by (simp add: bind_res_def js_div_def Math_sqrt_def)
qed

lemma scale_velocities_one: "scale_velocities this 1 = this"
  by (simp add: scale_velocities_def)

lemma scale_velocities_fields:
  "b_x (ball (scale_velocities this sc)) = b_x (ball this)"
  "b_y (ball (scale_velocities this sc)) = b_y (ball this)"
  "b_angle (ball (scale_velocities this sc)) = b_angle (ball this)"
  "c_angle (container (scale_velocities this sc)) = c_angle (container this)"
  "sys_id (scale_velocities this sc) = sys_id this"
  "initialEnergy (scale_velocities this sc) = initialEnergy this"
  "b_vx (ball (scale_velocities this sc)) = b_vx (ball this) * sc"
  "b_vy (ball (scale_velocities this sc)) = b_vy (ball this) * sc"
  "b_angularVelocity (ball (scale_velocities this sc)) = b_angularVelocity (ball this) * sc"
  "c_angularVelocity (container (scale_velocities this sc))
     = c_angularVelocity (container this) * sc"
  by (simp_all add: scale_velocities_def)

lemma scale_velocities_ok: "system_ok (scale_velocities this sc) = system_ok this"
  by (simp add: scale_velocities_def system_ok_def params_ok_def)

lemma correctEnergy_skipped:
  assumes "\<not> corrects this stats"
  shows "correctEnergy this stats = Inr (this, total stats)"
  using assms by (auto simp add: correctEnergy_def corrects_def Let_def)

lemma correctEnergy_applied:
  assumes "corrects this stats"
    and "sc = max 0.99 (min 1.01
                    (sqrt ((initialEnergy this - pe stats) / (total stats - pe stats))))"
  shows "correctEnergy this stats =
      Inr (scale_velocities this sc, pe stats + (total stats - pe stats) * sc * sc)"
proof -
  have c: "0.000001 < initialEnergy this - pe stats" "0.000001 < total stats - pe stats"
    and i: "\<not> (initialEnergy this = 0 \<or> initialEnergy this < 0.000001)"
    using assms by (auto simp add: corrects_def)
  have tail: "(if sc \<noteq> 1 then scale_velocities this sc else this) = scale_velocities this sc"
    by (simp add: scale_velocities_one)
  have "correctEnergy this stats =
      Inr (if sc \<noteq> 1 then scale_velocities this sc else this,
           pe stats + (total stats - pe stats) * sc * sc)"
    unfolding correctEnergy_def Let_def ratio_sqrt [OF c] Number_isFinite_def assms(2)
    using c i by (simp only: if_False if_True simp_thms)
  then show ?thesis by (simp only: tail)
qed

lemma correctEnergy_total: "\<exists>r. correctEnergy this stats = Inr r"
proof (cases "corrects this stats")
  case True
  then show ?thesis using correctEnergy_applied [OF True refl] by blast
next
  case False
  then show ?thesis using correctEnergy_skipped by blast
qed

lemma correctEnergy_keeps:
  assumes "correctEnergy this stats = Inr (this', e)"
  shows "b_x (ball this') = b_x (ball this) \<and> b_y (ball this') = b_y (ball this)
      \<and> b_angle (ball this') = b_angle (ball this)
      \<and> c_angle (container this') = c_angle (container this)
      \<and> sys_id this' = sys_id this \<and> initialEnergy this' = initialEnergy this
      \<and> system_ok this' = system_ok this"
proof (cases "corrects this stats")
  case True
  have "this' = scale_velocities this (max 0.99 (min 1.01
                    (sqrt ((initialEnergy this - pe stats) / (total stats - pe stats)))))"
    using assms correctEnergy_applied [OF True refl] by simp
  then show ?thesis
    by (simp only: scale_velocities_fields scale_velocities_ok simp_thms)
next
  case False
  have "this' = this" using assms correctEnergy_skipped [OF False] by simp
  then show ?thesis by simp
qed


subsection \<open>update\<close>

lemma update_ok:
  assumes ok: "system_ok this"
  shows "\<exists>this' e. update this dt = Inr (this', e) \<and> system_ok this'
           \<and> sys_id this' = sys_id this \<and> initialEnergy this' = initialEnergy this
           \<and> dist_center (ball this') \<le> 270"
proof -
  obtain h where h: "hoist dt (ball this) (container this) = Inr h"
    and hm: "h_maxDist h = 270" "h_maxDistSq h = 72900"
    using ok hoist_ok [of "ball this" "container this" dt] by (auto simp add: system_ok_def)
  obtain bc where bc: "sub_steps SUB_STEPS h (ball this, container this) = Inr bc"
    using sub_steps_total by blast
  have pk: "params_ok (fst bc) (snd bc)"
    using sub_steps_params [OF bc] ok by (simp add: system_ok_def)
  have "sub_steps (Suc 15) h (ball this, container this) = Inr bc"
    using bc by (simp add: SUB_STEPS_def)
  then have ins: "dist_center (fst bc) \<le> 270"
    using sub_steps_inside [of h 15 "(ball this, container this)" bc] hm by simp
  let ?this1 = "this\<lparr>ball := fst bc, container := snd bc\<rparr>"
  obtain this' e where ce: "correctEnergy ?this1 (calculateEnergy ?this1) = Inr (this', e)"
    using correctEnergy_total by (metis surj_pair)
  have u: "update this dt = Inr (this', e)"
    by (simp add: update_def h bc bind_res_def Let_def ce)
  have "dist_center (ball this') = dist_center (fst bc)"
    using correctEnergy_keeps [OF ce] by (simp add: dist_center_def)
  moreover have "system_ok this'"
    using correctEnergy_keeps [OF ce] pk by (simp add: system_ok_def)
  ultimately show ?thesis
    using u ins correctEnergy_keeps [OF ce] by simp
qed

lemma reset_fields:
  "sys_id (reset this i) = sys_id this"
  "b_x (ball (reset this i)) = 1 + (of_int i / 64) * 0.02 - 0.01"
  "b_y (ball (reset this i)) = - 220"
  "b_vx (ball (reset this i)) = 0"
  "b_vy (ball (reset this i)) = 0"
  "b_angle (ball (reset this i)) = 0"
  "b_angularVelocity (ball (reset this i)) = 0"
  "c_angle (container (reset this i)) = 0"
  "c_angularVelocity (container (reset this i)) = 0"
  "initialEnergy (reset this i) = 2158200"
  by (simp_all add: reset_def Let_def calculateEnergy_def consts_defs)

lemma reset_ok: "system_ok (reset this i)"
  by (simp add: reset_def Let_def system_ok_def params_ok_def)

lemma new_SimSystem_id: "sys_id (new_SimSystem i) = i"
  by (simp add: new_SimSystem_def reset_fields)

lemma new_SimSystem_ok: "system_ok (new_SimSystem i)"
  by (simp add: new_SimSystem_def reset_ok)

lemma onmessage_init:
  assumes "m_type msg = ''init''"
  shows "onmessage f32 w msg =
     Inr (\<lparr>systems = map new_SimSystem (msg_systemIds msg), systemIds = msg_systemIds msg\<rparr>,
          Some Initialized)"
  using assms by (simp add: onmessage_def msg_systemIds_def Let_def)

subsection \<open>Writing the state buffer\<close>

lemma set_float_byteLength: "byteLength (set_float f32 out i v) = byteLength out"
  by (simp add: set_float_def)

lemma set_float_floats:
  "floats (set_float f32 out i v) k
     = (if k = i \<and> i < byteLength out div 4 then f32 v else floats out k)"
  by (simp add: set_float_def)

lemma write_state_byteLength: "byteLength (write_state f32 out base s) = byteLength out"
  by (simp add: write_state_def Let_def set_float_byteLength)

lemma write_state_floats:
  assumes "base + 3 < byteLength out div 4"
  shows "floats (write_state f32 out base s) k
     = (if k = base then f32 (b_x (ball s))
        else if k = base + 1 then f32 (b_y (ball s))
        else if k = base + 2 then f32 (b_angle (ball s))
        else if k = base + 3 then f32 (c_angle (container s))
        else floats out k)"
  using assms
  by (simp add: write_state_def Let_def set_float_floats set_float_byteLength)

lemma cell_in_block:
  assumes "4 * i \<le> k" and "k < 4 * i + 4" and "ss ! i = s"
  shows "state_cell f32 ss k
     = (if k = 4 * i then f32 (b_x (ball s))
        else if k = 4 * i + 1 then f32 (b_y (ball s))
        else if k = 4 * i + 2 then f32 (b_angle (ball s))
        else f32 (c_angle (container s)))"
proof -
  obtain r where k: "k = 4 * i + r" and r: "r < 4"
    using assms(1,2) by (metis add_less_cancel_left le_Suc_ex)
  have d: "k div 4 = i" and m: "k mod 4 = r" using r by (simp_all add: k)
  consider "r = 0" | "r = 1" | "r = 2" | "r = 3" using r by linarith
  then show ?thesis
    by cases (simp_all add: state_cell_def Let_def d m assms(3), simp_all add: k)
qed

subsection \<open>The loops of the worker\<close>

lemma reset_loop_spec:
  assumes "reset_loop f32 i ss out tot = (ss', out', tot')"
    and "i \<le> length ss" and "4 * length ss \<le> byteLength out div 4"
  shows "ss' = take i ss @ map reset_own (drop i ss)
       \<and> byteLength out' = byteLength out
       \<and> (\<forall>k. floats out' k
              = (if 4 * i \<le> k \<and> k < 4 * length ss then state_cell f32 ss' k else floats out k))
       \<and> tot' = tot + sum_list (map (\<lambda>s. initialEnergy (reset_own s)) (drop i ss))"
  using assms
proof (induction f32 i ss out tot rule: reset_loop.induct)
  case (1 f32 i ss out tot)
  show ?case
  proof (cases "i < length ss")
    case False
    then have e: "reset_loop f32 i ss out tot = (ss, out, tot)"
      by (simp add: reset_loop.simps [of f32 i ss])
    have "i = length ss" using False "1.prems"(2) by simp
    then show ?thesis using "1.prems"(1) e by simp
  next
    case True
    let ?s = "reset (ss ! i) (sys_id (ss ! i))"
    let ?out1 = "write_state f32 out (i * STATE_STRIDE) ?s"
    have rec: "reset_loop f32 (i + 1) (ss[i := ?s]) ?out1 (tot + initialEnergy ?s)
                 = (ss', out', tot')"
      using "1.prems"(1) True by (simp add: reset_loop.simps [of f32 i ss] Let_def)
    have bl: "4 * length (ss[i := ?s]) \<le> byteLength ?out1 div 4"
      using "1.prems"(3) by (simp add: write_state_byteLength)
    have inr: "i * 4 + 3 < byteLength out div 4" using True "1.prems"(3) by simp
    note IH = "1.IH" [OF True refl rec _ bl]
    have ih: "ss' = take (i + 1) (ss[i := ?s]) @ map reset_own (drop (i + 1) (ss[i := ?s]))"
      and ihb: "byteLength out' = byteLength ?out1"
      and ihf: "\<And>k. floats out' k
              = (if 4 * (i + 1) \<le> k \<and> k < 4 * length (ss[i := ?s])
                 then state_cell f32 ss' k else floats ?out1 k)"
      and iht: "tot' = tot + initialEnergy ?s
          + sum_list (map (\<lambda>s. initialEnergy (reset_own s)) (drop (i + 1) (ss[i := ?s])))"
      using IH True by simp_all
    have ss': "ss' = take i ss @ map reset_own (drop i ss)"
      using ih True
      by (simp add: take_Suc_conv_app_nth reset_own_def Cons_nth_drop_Suc [symmetric])
    have si: "ss' ! i = ?s"
      using True by (simp add: ss' nth_append reset_own_def)
    have fl: "floats out' k
              = (if 4 * i \<le> k \<and> k < 4 * length ss then state_cell f32 ss' k else floats out k)"
      for k
    proof (cases "4 * i \<le> k \<and> k < 4 * i + 4")
      case True
      then have "\<not> 4 * (i + 1) \<le> k" by simp
      then have "floats out' k = floats ?out1 k" using ihf by simp
      also have "\<dots> = state_cell f32 ss' k"
        using True inr cell_in_block [of i k ss' ?s f32] si
        by (auto simp add: write_state_floats STATE_STRIDE_def mult.commute)
      finally show ?thesis using True \<open>i < length ss\<close> by simp
    next
      case False
      then have "floats ?out1 k = floats out k"
        using inr by (auto simp add: write_state_floats STATE_STRIDE_def)
      then show ?thesis using ihf [of k] False by auto
    qed
    have tt: "tot' = tot + sum_list (map (\<lambda>s. initialEnergy (reset_own s)) (drop i ss))"
      using iht True by (simp add: Cons_nth_drop_Suc [symmetric] reset_own_def)
    show ?thesis using ss' ihb fl tt by (simp add: write_state_byteLength)
  qed
qed


lemma update_loop_spec:
  assumes "\<forall>j. i \<le> j \<and> j < length ss \<longrightarrow> system_ok (ss ! j)"
    and "i \<le> length ss" and "4 * length ss \<le> byteLength out div 4"
    and "dt = Some d"
  shows "\<exists>ss' out' tot'. update_loop f32 dt i ss out tot = Inr (ss', out', tot')
       \<and> length ss' = length ss
       \<and> (\<forall>j<length ss. if i \<le> j then (\<exists>e. update (ss ! j) d = Inr (ss' ! j, e))
                           else ss' ! j = ss ! j)
       \<and> byteLength out' = byteLength out
       \<and> (\<forall>k. floats out' k
              = (if 4 * i \<le> k \<and> k < 4 * length ss then state_cell f32 ss' k else floats out k))"
  using assms
proof (induction f32 dt i ss out tot rule: update_loop.induct)
  case (1 f32 dt i ss out tot)
  show ?case
  proof (cases "i < length ss")
    case False
    then have e: "update_loop f32 dt i ss out tot = Inr (ss, out, tot)"
      by (simp add: update_loop.simps [of f32 dt i ss])
    have "i = length ss" using False "1.prems"(2) by simp
    then show ?thesis using e by simp
  next
    case True
    have "system_ok (ss ! i)" using "1.prems"(1) True by simp
    then obtain s' e where u: "update (ss ! i) d = Inr (s', e)" and ok: "system_ok s'"
      using update_ok by blast
    let ?out1 = "write_state f32 out (i * STATE_STRIDE) s'"
    have c: "(case dt of None \<Rightarrow> Inl NonFinite | Some d \<Rightarrow> update (ss ! i) d) = Inr (s', e)"
      using u "1.prems"(4) by simp
    have unf: "update_loop f32 dt i ss out tot
        = update_loop f32 dt (i + 1) (ss[i := s']) ?out1 (tot + e)"
      using True c by (simp add: update_loop.simps [of f32 dt i ss])
    have oks: "\<forall>j. i + 1 \<le> j \<and> j < length (ss[i := fst (s', e)])
                 \<longrightarrow> system_ok (ss[i := fst (s', e)] ! j)"
      using "1.prems"(1) by simp
    have bl: "4 * length (ss[i := fst (s', e)])
        \<le> byteLength (write_state f32 out (i * STATE_STRIDE) (fst (s', e))) div 4"
      using "1.prems"(3) by (simp add: write_state_byteLength)
    have le: "i + 1 \<le> length (ss[i := fst (s', e)])" using True by simp
    have inr: "i * 4 + 3 < byteLength out div 4" using True "1.prems"(3) by simp
    from "1.IH" [OF True c oks le bl "1.prems"(4)]
    obtain ss' out' tot' where
      r: "update_loop f32 dt (i + 1) (ss[i := s']) ?out1 (tot + e) = Inr (ss', out', tot')"
      and len: "length ss' = length ss"
      and el: "\<And>j. j < length ss \<Longrightarrow>
                 (if i + 1 \<le> j then (\<exists>e. update (ss[i := s'] ! j) d = Inr (ss' ! j, e))
                  else ss' ! j = ss[i := s'] ! j)"
      and ihb: "byteLength out' = byteLength ?out1"
      and ihf: "\<And>k. floats out' k
              = (if 4 * (i + 1) \<le> k \<and> k < 4 * length ss
                 then state_cell f32 ss' k else floats ?out1 k)"
      by (auto simp only: fst_conv snd_conv length_list_update)
    have si: "ss' ! i = s'" using el [of i] True by simp
    have els: "if i \<le> j then (\<exists>e. update (ss ! j) d = Inr (ss' ! j, e))
               else ss' ! j = ss ! j" if "j < length ss" for j
    proof (cases "j = i")
      case True
      then show ?thesis using si u by auto
    next
      case False
      then show ?thesis using el [OF that] by (cases "i + 1 \<le> j") auto
    qed
    have fl: "floats out' k
              = (if 4 * i \<le> k \<and> k < 4 * length ss then state_cell f32 ss' k else floats out k)"
      for k
    proof (cases "4 * i \<le> k \<and> k < 4 * i + 4")
      case True
      then have "\<not> 4 * (i + 1) \<le> k" by simp
      then have "floats out' k = floats ?out1 k" using ihf by simp
      also have "\<dots> = state_cell f32 ss' k"
        using True inr cell_in_block [of i k ss' s' f32] si
        by (auto simp add: write_state_floats STATE_STRIDE_def mult.commute)
      finally show ?thesis using True \<open>i < length ss\<close> by simp
    next
      case False
      then have "floats ?out1 k = floats out k"
        using inr by (auto simp add: write_state_floats STATE_STRIDE_def)
      then show ?thesis using ihf [of k] False by auto
    qed
    show ?thesis
      using unf r len els fl ihb by (simp add: write_state_byteLength)
  qed
qed


lemma update_result:
  assumes "update this dt = Inr (this', e)" and "system_ok this"
  shows "system_ok this'" and "sys_id this' = sys_id this"
  using update_ok [OF assms(2), of dt] assms(1) by auto

lemma reset_own_id: "sys_id (reset_own s) = sys_id s"
  by (simp add: reset_own_def reset_fields)

lemma reset_own_twice: "reset_own (reset_own s) = reset_own s"
  by (simp add: reset_own_def reset_def Let_def calculateEnergy_def)

lemma choose_buffer_byteLength: "byteLength (snd (choose_buffer arg n)) = n * 4"
  by (simp add: choose_buffer_def new_ArrayBuffer_def split: buffer_arg.splits)

lemma choose_buffer_origin:
  "fst (choose_buffer arg n)
     = (case arg of
          NotArrayBuffer \<Rightarrow> Allocated
        | IsArrayBuffer b \<Rightarrow> if byteLength b = n * 4 then Reused else Allocated)"
  by (simp add: choose_buffer_def split: buffer_arg.splits)

lemma onmessage_reset:
  assumes "m_type msg = ''reset''"
  shows "\<exists>out'. onmessage f32 w msg
           = Inr (w\<lparr>systems := map reset_own (systems w)\<rparr>,
                  Some (WasReset (m_batchId msg)
                    (fst (choose_buffer (m_buffer msg) (length (systems w) * STATE_STRIDE)))
                    out' (sum_list (map (\<lambda>s. initialEnergy (reset_own s)) (systems w)))))
         \<and> byteLength out' = 4 * length (systems w) * 4
         \<and> (\<forall>k < 4 * length (systems w).
               floats out' k = state_cell f32 (map reset_own (systems w)) k)"
proof -
  let ?n = "length (systems w) * STATE_STRIDE"
  let ?ch = "choose_buffer (m_buffer msg) ?n"
  obtain ss' out' tot' where r: "reset_loop f32 0 (systems w) (snd ?ch) 0 = (ss', out', tot')"
    using prod_cases3 by blast
  have bl: "4 * length (systems w) \<le> byteLength (snd ?ch) div 4"
    by (simp add: choose_buffer_byteLength STATE_STRIDE_def)
  have sp: "ss' = map reset_own (systems w)" "byteLength out' = byteLength (snd ?ch)"
    "\<And>k. floats out' k = (if k < 4 * length (systems w) then state_cell f32 ss' k
                           else floats (snd ?ch) k)"
    "tot' = sum_list (map (\<lambda>s. initialEnergy (reset_own s)) (systems w))"
    using reset_loop_spec [OF r _ bl] by simp_all
  have ne: "''reset'' \<noteq> ''init''" "''reset'' \<noteq> ''update''" by simp_all
  have "onmessage f32 w msg
      = Inr (w\<lparr>systems := ss'\<rparr>, Some (WasReset (m_batchId msg) (fst ?ch) out' tot'))"
    using assms r ne by (simp add: onmessage_def Let_def)
  then show ?thesis
    using sp by (auto simp add: choose_buffer_byteLength STATE_STRIDE_def)
qed

lemma onmessage_update:
  assumes "m_type msg = ''update''" and "worker_ok w" and "msg_dt msg = Some d"
  shows "\<exists>ss' out' tot'. onmessage f32 w msg
           = Inr (w\<lparr>systems := ss'\<rparr>,
                  Some (Updated (m_batchId msg)
                    (fst (choose_buffer (m_buffer msg) (length (systems w) * STATE_STRIDE)))
                    out' tot'))
         \<and> length ss' = length (systems w)
         \<and> (\<forall>j < length (systems w). \<exists>e. update (systems w ! j) d = Inr (ss' ! j, e))
         \<and> byteLength out' = 4 * length (systems w) * 4
         \<and> (\<forall>k < 4 * length (systems w). floats out' k = state_cell f32 ss' k)"
proof -
  let ?n = "length (systems w) * STATE_STRIDE"
  let ?ch = "choose_buffer (m_buffer msg) ?n"
  have bl: "4 * length (systems w) \<le> byteLength (snd ?ch) div 4"
    by (simp add: choose_buffer_byteLength STATE_STRIDE_def)
  have oks: "\<forall>j. 0 \<le> j \<and> j < length (systems w) \<longrightarrow> system_ok (systems w ! j)"
    using assms(2) by (simp add: worker_ok_def list_all_length)
  obtain ss' out' tot' where
    r: "update_loop f32 (msg_dt msg) 0 (systems w) (snd ?ch) 0 = Inr (ss', out', tot')"
    and len: "length ss' = length (systems w)"
    and el: "\<forall>j<length (systems w). \<exists>e. update (systems w ! j) d = Inr (ss' ! j, e)"
    and b: "byteLength out' = byteLength (snd ?ch)"
    and f: "\<forall>k. floats out' k = (if k < 4 * length (systems w) then state_cell f32 ss' k
                                  else floats (snd ?ch) k)"
    using update_loop_spec [OF oks _ bl assms(3), of f32 0] by auto
  have ne: "''update'' \<noteq> ''init''" by simp
  have "onmessage f32 w msg
      = Inr (w\<lparr>systems := ss'\<rparr>, Some (Updated (m_batchId msg) (fst ?ch) out' tot'))"
    using assms(1) r ne by (simp add: onmessage_def Let_def bind_res_def msg_dt_def)
  then show ?thesis
    using len el b f by (auto simp add: choose_buffer_byteLength STATE_STRIDE_def)
qed

lemma cells_of_system:
  assumes "\<forall>k < 4 * length ss. floats buf k = state_cell f32 ss k" and "i < length ss"
  shows "floats buf (4 * i) = f32 (b_x (ball (ss ! i)))
       \<and> floats buf (4 * i + 1) = f32 (b_y (ball (ss ! i)))
       \<and> floats buf (4 * i + 2) = f32 (b_angle (ball (ss ! i)))
       \<and> floats buf (4 * i + 3) = f32 (c_angle (container (ss ! i)))"
proof -
  have k0: "state_cell f32 ss (4 * i) = f32 (b_x (ball (ss ! i)))"
    using cell_in_block [of i "4 * i" ss "ss ! i" f32] by simp
  have k1: "state_cell f32 ss (4 * i + 1) = f32 (b_y (ball (ss ! i)))"
    using cell_in_block [of i "4 * i + 1" ss "ss ! i" f32] by simp
  have k2: "state_cell f32 ss (4 * i + 2) = f32 (b_angle (ball (ss ! i)))"
    using cell_in_block [of i "4 * i + 2" ss "ss ! i" f32] by simp
  have k3: "state_cell f32 ss (4 * i + 3) = f32 (c_angle (container (ss ! i)))"
    using cell_in_block [of i "4 * i + 3" ss "ss ! i" f32] by simp
  have "4 * i < 4 * length ss" "4 * i + 1 < 4 * length ss" "4 * i + 2 < 4 * length ss"
    "4 * i + 3 < 4 * length ss" using assms(2) by simp_all
  then have "floats buf (4 * i) = state_cell f32 ss (4 * i)"
    "floats buf (4 * i + 1) = state_cell f32 ss (4 * i + 1)"
    "floats buf (4 * i + 2) = state_cell f32 ss (4 * i + 2)"
    "floats buf (4 * i + 3) = state_cell f32 ss (4 * i + 3)"
    using assms(1) by blast+
  then show ?thesis by (simp only: k0 k1 k2 k3 simp_thms)
qed

subsection \<open>The buffer of a reply\<close>




subsection \<open>The worker keeps the constructor's parameters\<close>

lemma initial_worker_ok: "worker_ok initial_worker"
  by (simp add: worker_ok_def initial_worker_def)

lemma onmessage_keeps_ok:
  assumes "worker_ok w" and "onmessage f32 w msg = Inr (w', r)"
  shows "worker_ok w'"
proof -
  consider (init) "m_type msg = ''init''" | (upd) "m_type msg = ''update''"
    | (res) "m_type msg = ''reset''"
    | (other) "m_type msg \<noteq> ''init''" "m_type msg \<noteq> ''update''" "m_type msg \<noteq> ''reset''"
    by blast
  then show ?thesis
  proof cases
    case init
    then show ?thesis
      using assms(2)
      by (auto simp add: onmessage_init worker_ok_def list_all_iff new_SimSystem_ok)
  next
    case upd
    show ?thesis
    proof (cases "msg_dt msg")
      case None
      have ne: "''update'' \<noteq> ''init''" by simp
      have "systems w = [] \<or> onmessage f32 w msg = Inl NonFinite"
        using upd None ne
        by (cases "systems w")
          (simp_all add: onmessage_def Let_def bind_res_def msg_dt_def
            update_loop.simps [of f32 None 0])
      moreover have "systems w' = []" if "systems w = []"
        using upd None ne that assms(2)
        by (auto simp add: onmessage_def Let_def bind_res_def msg_dt_def
            update_loop.simps [of f32 None 0])
      ultimately show ?thesis using assms(2) by (auto simp add: worker_ok_def)
    next
      case (Some d)
      obtain ss' out' tot' where
        r: "onmessage f32 w msg
           = Inr (w\<lparr>systems := ss'\<rparr>,
                  Some (Updated (m_batchId msg)
                    (fst (choose_buffer (m_buffer msg) (length (systems w) * STATE_STRIDE)))
                    out' tot'))"
        and len: "length ss' = length (systems w)"
        and el: "\<forall>j < length (systems w). \<exists>e. update (systems w ! j) d = Inr (ss' ! j, e)"
        using onmessage_update [OF upd assms(1) Some, of f32] by blast
      have "system_ok (ss' ! j)" if "j < length ss'" for j
      proof -
        have j: "j < length (systems w)" using that len by simp
        then have "\<exists>e. update (systems w ! j) d = Inr (ss' ! j, e)" using el by blast
        moreover have "system_ok (systems w ! j)"
          using assms(1) j by (simp add: worker_ok_def list_all_length)
        ultimately show ?thesis using update_result(1) by blast
      qed
      then have "worker_ok (w\<lparr>systems := ss'\<rparr>)" by (simp add: worker_ok_def list_all_length)
      then show ?thesis using r assms(2) by simp
    qed
  next
    case res
    have "w' = w\<lparr>systems := map reset_own (systems w)\<rparr>"
      using onmessage_reset [OF res, of f32 w] assms(2) by auto
    then show ?thesis by (simp add: worker_ok_def list_all_iff reset_own_def reset_ok)
  next
    case other
    then have "w' = w" using assms(2) by (simp add: onmessage_def)
    then show ?thesis using assms(1) by simp
  qed
qed

subsection \<open>Rounding to a double\<close>

lemma round_half_even_near:
  assumes "\<bar>x - of_int m\<bar> < 1 / 2"
  shows "round_half_even x = m"
proof -
  have "\<lfloor>x\<rfloor> = m \<or> \<lfloor>x\<rfloor> = m - 1" using assms by linarith
  then show ?thesis
  proof
    assume f: "\<lfloor>x\<rfloor> = m"
    then have "x - of_int m < 1 / 2" using assms by linarith
    then show ?thesis by (simp add: round_half_even_def Let_def f)
  next
    assume f: "\<lfloor>x\<rfloor> = m - 1"
    have "of_int (m - 1) = (of_int m :: real) - 1" by simp
    then have "1 / 2 < x - of_int (m - 1)" using assms by linarith
    then show ?thesis by (simp add: round_half_even_def Let_def f)
  qed
qed


lemma round64_binade:
  assumes lo: "2 powi (k + 52) \<le> \<bar>x\<bar>" and hi: "\<bar>x\<bar> < 2 powi (k + 53)"
    and k: "- 1074 \<le> k"
    and fin: "\<bar>of_int (round_half_even (x / 2 powi k)) * 2 powi k\<bar> < (2::real) ^ 1024"
  shows "round64 x = Num (of_int (round_half_even (x / 2 powi k)) * 2 powi k)"
proof -
  have pos: "0 < \<bar>x\<bar>" using lo by (smt (verit) zero_less_power_int)
  then have nz: "x \<noteq> 0" by simp
  have p1: "2 powr (of_int (k + 52)) = (2::real) powi (k + 52)"
    by (rule powr_real_of_int') simp_all
  have p2: "2 powr (of_int (k + 52 + 1)) = (2::real) powi (k + 52 + 1)"
    by (rule powr_real_of_int') simp_all
  have "(\<lfloor>log 2 \<bar>x\<bar>\<rfloor> = k + 52)
      \<longleftrightarrow> 2 powr (of_int (k + 52)) \<le> \<bar>x\<bar> \<and> \<bar>x\<bar> < 2 powr (of_int (k + 52 + 1))"
    by (rule floor_log_eq_powr_iff) (use pos in simp_all)
  moreover have "k + 52 + 1 = k + 53" by simp
  ultimately have "\<lfloor>log 2 \<bar>x\<bar>\<rfloor> = k + 52" unfolding p1 p2 using lo hi by simp
  then have e: "max \<lfloor>log 2 \<bar>x\<bar>\<rfloor> (- 1022) = k + 52" using k by simp
  show ?thesis using fin nz by (simp add: round64_def Let_def e mult.commute not_le)
qed

text \<open>
  A certificate for one rounding: \<open>x\<close> lies in the binade of exponent \<open>k + 52\<close> and is
  nearer to \<open>m * 2\<^sup>k\<close> than half a unit in the last place.
\<close>

lemma round64_cert:
  assumes lo: "2 powi (k + 52) \<le> \<bar>x\<bar>" and hi: "\<bar>x\<bar> < 2 powi (k + 53)"
    and k: "- 1074 \<le> k" and near: "\<bar>x / 2 powi k - of_int m\<bar> < 1 / 2"
    and fin: "\<bar>of_int m * 2 powi k\<bar> < (2::real) ^ 1024"
  shows "round64 x = Num (of_int m * 2 powi k)"
proof -
  have r: "round_half_even (x / 2 powi k) = m" using near by (rule round_half_even_near)
  show ?thesis using round64_binade [OF lo hi k] fin by (simp add: r)
qed



lemma round64_0: "round64 0 = Num 0"
  by (simp add: round64_def)



text \<open>The constants and literals of the source as doubles.\<close>

lemma GRAVITY64_value:
  "GRAVITY64 = Num 981"
proof -
  have r1: "round64 (981 / 100) = Num (5522539043063071 / 562949953421312)"
    using round64_cert [of "-49" "981 / 100" "5522539043063071"] by simp
  have r2: "round64 (138063476076576775 / 140737488355328) = Num 981"
    using round64_cert [of "-43" "138063476076576775 / 140737488355328" "8628967254786048"]
    by simp
  show ?thesis
    by (simp add: GRAVITY64_def lit64_def round64_0 r1 r2)
qed

lemma lit64_values:
  "lit64 (1 / 1000000) = Num (4722366482869645 / 4722366482869645213696)
   \<and> lit64 (99 / 100) = Num (4458563631096791 / 4503599627370496)
   \<and> lit64 (101 / 100) = Num (4548635623644201 / 4503599627370496)
   \<and> lit64 (1 / 10) = Num (3602879701896397 / 36028797018963968)"
proof -
  have r1: "round64 (1 / 1000000) = Num (4722366482869645 / 4722366482869645213696)"
    using round64_cert [of "-72" "1 / 1000000" "4722366482869645"] by simp
  have r2: "round64 (99 / 100) = Num (4458563631096791 / 4503599627370496)"
    using round64_cert [of "-53" "99 / 100" "8917127262193582"] by simp
  have r3: "round64 (101 / 100) = Num (4548635623644201 / 4503599627370496)"
    using round64_cert [of "-52" "101 / 100" "4548635623644201"] by simp
  have r4: "round64 (1 / 10) = Num (3602879701896397 / 36028797018963968)"
    using round64_cert [of "-56" "1 / 10" "7205759403792794"] by simp
  show ?thesis
    by (simp add: lit64_def round64_0 r1 r2 r3 r4)
qed

subsection \<open>Where the double-precision loop body leaves the ball\<close>







section \<open>The starting position\<close>

text \<open>
  Claim C1, as the code has it: for every shard initialised with a list of ids and every
  position \<open>i\<close> in that list, the system made for the id at \<open>i\<close> has its ball at
  \<open>x = 1 + (id / 64) * 0.02 - 0.01\<close>, \<open>y = -220\<close>, and the velocities, angular velocities
  and angles of ball and container are zero. The divisor is the constant
  \<^verbatim>\<open>NUM_SYSTEMS = 64\<close>, whatever the number of ids in the shard.
\<close>

theorem init_places_ball:
  assumes "m_type msg = ''init''" and "i < length (msg_systemIds msg)"
  shows "\<exists>w'. onmessage f32 w msg = Inr (w', Some Initialized)
           \<and> length (systems w') = length (msg_systemIds msg)
           \<and> sys_id (systems w' ! i) = msg_systemIds msg ! i
           \<and> b_x (ball (systems w' ! i))
               = 1 + (of_int (msg_systemIds msg ! i) / 64) * 0.02 - 0.01
           \<and> b_y (ball (systems w' ! i)) = - 220
           \<and> b_vx (ball (systems w' ! i)) = 0 \<and> b_vy (ball (systems w' ! i)) = 0
           \<and> b_angularVelocity (ball (systems w' ! i)) = 0
           \<and> c_angularVelocity (container (systems w' ! i)) = 0
           \<and> b_angle (ball (systems w' ! i)) = 0
           \<and> c_angle (container (systems w' ! i)) = 0"
  using assms
  by (simp add: onmessage_init new_SimSystem_def reset_fields)

theorem init_places_ball_witness:
  "m_type (init_message [0, 1]) = ''init'' \<and> (1::nat) < length (msg_systemIds (init_message [0, 1]))
   \<and> (\<exists>w'. onmessage (\<lambda>v. v) initial_worker (init_message [0, 1]) = Inr (w', Some Initialized)
         \<and> b_x (ball (systems w' ! 1)) = 3169 / 3200 \<and> b_y (ball (systems w' ! 1)) = - 220)"
proof -
  have t: "m_type (init_message [0, 1]) = ''init''" by (simp add: init_message_def)
  have l: "(1::nat) < length (msg_systemIds (init_message [0, 1]))"
    by (simp add: init_message_def msg_systemIds_def)
  have v: "msg_systemIds (init_message [0, 1]) = [0, 1]"
    by (simp add: init_message_def msg_systemIds_def)
  show ?thesis
    using t l init_places_ball [OF t l, of "\<lambda>v. v" initial_worker] by (auto simp add: v)
qed

text \<open>
  With the divisor read as the number of ids in the shard, the claim fails: in a shard
  initialised with the two ids 0 and 1, the ball of id 1 starts at \<open>x = 3169/3200\<close>, not at
  \<open>1 + (1/2) * 0.02 - 0.01 = 1\<close>.
\<close>

theorem shard_count_counterexample:
  "onmessage (\<lambda>v. v) initial_worker (init_message [0, 1])
     = Inr (\<lparr>systems = [new_SimSystem 0, new_SimSystem 1], systemIds = [0, 1]\<rparr>,
            Some Initialized)
   \<and> b_x (ball ([new_SimSystem 0, new_SimSystem 1] ! 1)) = 3169 / 3200
   \<and> b_x (ball ([new_SimSystem 0, new_SimSystem 1] ! 1))
       \<noteq> 1 + (of_int ([0, 1] ! 1) / real (length [0, 1 :: int])) * 0.02 - 0.01"
  by (simp add: onmessage_def init_message_def msg_systemIds_def Let_def new_SimSystem_def
      reset_fields)

text \<open>
  A \<^verbatim>\<open>reset\<close> command puts every system of the shard back there, whatever happened to it
  before, and stores its energy as the new baseline.
\<close>

lemma reset_command_places_ball:
  assumes "m_type msg = ''reset''" and "i < length (systems w)"
  shows "\<exists>w' r. onmessage f32 w msg = Inr (w', Some r)
           \<and> sys_id (systems w' ! i) = sys_id (systems w ! i)
           \<and> b_x (ball (systems w' ! i))
               = 1 + (of_int (sys_id (systems w ! i)) / 64) * 0.02 - 0.01
           \<and> b_y (ball (systems w' ! i)) = - 220
           \<and> b_vx (ball (systems w' ! i)) = 0 \<and> b_vy (ball (systems w' ! i)) = 0
           \<and> b_angularVelocity (ball (systems w' ! i)) = 0
           \<and> c_angularVelocity (container (systems w' ! i)) = 0
           \<and> b_angle (ball (systems w' ! i)) = 0
           \<and> c_angle (container (systems w' ! i)) = 0
           \<and> initialEnergy (systems w' ! i) = total (calculateEnergy (systems w' ! i))"
proof -
  obtain out' where "onmessage f32 w msg
           = Inr (w\<lparr>systems := map reset_own (systems w)\<rparr>,
                  Some (WasReset (m_batchId msg)
                    (fst (choose_buffer (m_buffer msg) (length (systems w) * STATE_STRIDE)))
                    out' (sum_list (map (\<lambda>s. initialEnergy (reset_own s)) (systems w)))))"
    using onmessage_reset [OF assms(1), of f32 w] by blast
  moreover have "initialEnergy (reset s j) = total (calculateEnergy (reset s j))" for s j
    by (simp add: reset_def Let_def calculateEnergy_def)
  ultimately show ?thesis
    using assms(2) by (simp add: reset_own_def reset_fields)
qed

section \<open>Energy correction\<close>

text \<open>
  Claim C2: whenever \<^verbatim>\<open>correctEnergy\<close> applies a correction (the baseline is at least
  \<open>1e-6\<close>, and the current and the target kinetic energy exceed \<open>1e-6\<close>), the scale
  \<open>sqrt (target / current)\<close> is clamped to \<open>[0.99, 1.01]\<close>, the four velocities (ball
  \<open>vx\<close>, \<open>vy\<close>, angular velocity, container angular velocity) are multiplied by that one
  scale, so none changes by more than 1 percent, and the returned total energy is
  \<open>pe + currentKE * scale\<^sup>2\<close>.
\<close>

theorem correctEnergy_clamped:
  assumes "0.000001 \<le> initialEnergy this"
    and "0.000001 < initialEnergy this - pe stats"
    and "0.000001 < total stats - pe stats"
  shows "\<exists>scale this'.
           scale = max 0.99 (min 1.01
                     (sqrt ((initialEnergy this - pe stats) / (total stats - pe stats))))
         \<and> 0.99 \<le> scale \<and> scale \<le> 1.01
         \<and> correctEnergy this stats
             = Inr (this', pe stats + (total stats - pe stats) * scale\<^sup>2)
         \<and> b_vx (ball this') = b_vx (ball this) * scale
         \<and> b_vy (ball this') = b_vy (ball this) * scale
         \<and> b_angularVelocity (ball this') = b_angularVelocity (ball this) * scale
         \<and> c_angularVelocity (container this') = c_angularVelocity (container this) * scale
         \<and> \<bar>b_vx (ball this') - b_vx (ball this)\<bar> \<le> 0.01 * \<bar>b_vx (ball this)\<bar>
         \<and> \<bar>b_vy (ball this') - b_vy (ball this)\<bar> \<le> 0.01 * \<bar>b_vy (ball this)\<bar>
         \<and> \<bar>b_angularVelocity (ball this') - b_angularVelocity (ball this)\<bar>
               \<le> 0.01 * \<bar>b_angularVelocity (ball this)\<bar>
         \<and> \<bar>c_angularVelocity (container this') - c_angularVelocity (container this)\<bar>
               \<le> 0.01 * \<bar>c_angularVelocity (container this)\<bar>"
proof -
  define sc where "sc = max 0.99 (min 1.01
                     (sqrt ((initialEnergy this - pe stats) / (total stats - pe stats))))"
  have c: "corrects this stats" using assms by (simp add: corrects_def)
  have r: "0.99 \<le> sc" "sc \<le> 1.01" by (simp_all add: sc_def)
  have ce: "correctEnergy this stats
      = Inr (scale_velocities this sc, pe stats + (total stats - pe stats) * sc\<^sup>2)"
    using correctEnergy_applied [OF c sc_def] by (simp add: power2_eq_square mult.assoc)
  have small: "\<bar>v * sc - v\<bar> \<le> 0.01 * \<bar>v\<bar>" for v :: real
  proof -
    have "v * sc - v = v * (sc - 1)" by (simp add: algebra_simps)
    then have "\<bar>v * sc - v\<bar> = \<bar>v\<bar> * \<bar>sc - 1\<bar>" by (simp add: abs_mult)
    moreover have "\<bar>sc - 1\<bar> \<le> 0.01" by (rule abs_leI) (use r in simp_all)
    moreover have "\<bar>v\<bar> * \<bar>sc - 1\<bar> \<le> \<bar>v\<bar> * 0.01"
      using \<open>\<bar>sc - 1\<bar> \<le> 0.01\<close> by (rule mult_left_mono) simp
    ultimately show ?thesis by (simp only: mult.commute)
  qed
  show ?thesis
  proof (intro exI conjI)
    show "sc = max 0.99 (min 1.01
                     (sqrt ((initialEnergy this - pe stats) / (total stats - pe stats))))"
      by (rule sc_def)
    show "0.99 \<le> sc" and "sc \<le> 1.01" by (rule r)+
    show "correctEnergy this stats
      = Inr (scale_velocities this sc, pe stats + (total stats - pe stats) * sc\<^sup>2)"
      by (rule ce)
  qed (simp_all only: scale_velocities_fields small)
qed

theorem correctEnergy_clamped_witness:
  "0.000001 \<le> initialEnergy moving_system
   \<and> 0.000001 < initialEnergy moving_system - pe \<lparr>total = 539550, pe = 0\<rparr>
   \<and> 0.000001 < total \<lparr>total = 539550, pe = 0\<rparr> - pe \<lparr>total = 539550, pe = 0\<rparr>
   \<and> (\<exists>this'. correctEnergy moving_system \<lparr>total = 539550, pe = 0\<rparr>
                 = Inr (this', 539550 * 1.0201)
           \<and> b_vy (ball this') = 10.1)"
proof -
  have i: "initialEnergy moving_system = 2158200"
    by (simp add: moving_system_def new_SimSystem_def reset_fields)
  have v: "b_vy (ball moving_system) = 10" by (simp add: moving_system_def)
  have h: "0.000001 \<le> initialEnergy moving_system"
    "0.000001 < initialEnergy moving_system - pe \<lparr>total = 539550, pe = 0\<rparr>"
    "0.000001 < total \<lparr>total = 539550, pe = 0\<rparr> - pe \<lparr>total = 539550, pe = 0\<rparr>"
    by (simp_all add: i)
  obtain scale this' where
    sc: "scale = max 0.99 (min 1.01 (sqrt ((initialEnergy moving_system
            - pe \<lparr>total = 539550, pe = 0\<rparr>)
          / (total \<lparr>total = 539550, pe = 0\<rparr> - pe \<lparr>total = 539550, pe = 0\<rparr>))))"
    and ce: "correctEnergy moving_system \<lparr>total = 539550, pe = 0\<rparr>
      = Inr (this', pe \<lparr>total = 539550, pe = 0\<rparr>
          + (total \<lparr>total = 539550, pe = 0\<rparr> - pe \<lparr>total = 539550, pe = 0\<rparr>)
            * scale\<^sup>2)"
    and vy: "b_vy (ball this') = b_vy (ball moving_system) * scale"
    using correctEnergy_clamped [OF h] by blast
  have sv: "scale = 1.01" unfolding sc by (simp add: i)
  show ?thesis using h ce [unfolded sv] vy [unfolded sv] by (simp add: v power2_eq_square)
qed

text \<open>
  When the required scale lies inside the clamp, the returned energy is the baseline
  itself.
\<close>

lemma correctEnergy_exact:
  assumes "corrects this stats"
    and "0.99 \<le> sqrt ((initialEnergy this - pe stats) / (total stats - pe stats))"
    and "sqrt ((initialEnergy this - pe stats) / (total stats - pe stats)) \<le> 1.01"
  shows "\<exists>this'. correctEnergy this stats = Inr (this', initialEnergy this)"
proof -
  let ?q = "(initialEnergy this - pe stats) / (total stats - pe stats)"
  have k: "0 < total stats - pe stats" and t: "0 < initialEnergy this - pe stats"
    using assms(1) by (simp_all add: corrects_def)
  have "max 0.99 (min 1.01 (sqrt ?q)) = sqrt ?q" using assms(2,3) by simp
  then have "correctEnergy this stats
      = Inr (scale_velocities this (sqrt ?q),
             pe stats + (total stats - pe stats) * sqrt ?q * sqrt ?q)"
    using correctEnergy_applied [OF assms(1) refl] by simp
  moreover have "sqrt ?q * sqrt ?q = ?q" using k t by simp
  then have "(total stats - pe stats) * sqrt ?q * sqrt ?q = initialEnergy this - pe stats"
    using k by (simp add: mult.assoc)
  ultimately show ?thesis by simp
qed

text \<open>
  The first version of \<^verbatim>\<open>correctEnergy\<close> has no clamp: it applies a tenth of the required
  change. Where the required scale is 2 it multiplies the velocities by 1.1.
\<close>

lemma correctEnergy_v1_not_clamped:
  "correctEnergy_v1 lagging_system = Inr (scale_velocities lagging_system 1.1)"
proof -
  have i: "initialEnergy lagging_system = 2158200"
    by (simp add: lagging_system_def new_SimSystem_def reset_fields)
  have st: "calculateEnergy lagging_system = \<lparr>total = 2156700, pe = 2156200\<rparr>"
    by (simp add: lagging_system_def new_SimSystem_def reset_def calculateEnergy_def Let_def
        consts_defs)
  have r: "bind_res (js_div (2000::real) 500) (\<lambda>q. bind_res (Math_sqrt q) f) = f 2" for f
    using ratio_sqrt [of 2000 500 f] by simp
  show ?thesis
    by (simp add: correctEnergy_v1_def Let_def i st r)
qed

text \<open>
  The first \<^verbatim>\<open>update(1/30)\<close> after a reset is sixteen sub-steps of free fall. The
  required scale is \<open>sqrt (17/16)\<close>, the clamp caps it at 1.01, and the returned energy is
  below the baseline by \<open>5667237/25000\<close> (about 226.7).
\<close>

lemma fall16:
  "sub_steps SUB_STEPS centre_hoisted (ball (new_SimSystem 0), container (new_SimSystem 0))
     = Inr ((ball (new_SimSystem 0))\<lparr>b_y := - 220 + 981 * 136 / 230400, b_vy := 327 / 10\<rparr>,
            container (new_SimSystem 0))"
  by (simp add: SUB_STEPS_def eval_nat_numeral sub_step_def collide_def integrate_def Let_def
      bind_res_def centre_hoisted_def new_SimSystem_def reset_def consts_defs)


lemma hoist_start:
  "hoist (1 / 30) (ball (new_SimSystem 0)) (container (new_SimSystem 0)) = Inr centre_hoisted"
  by (simp add: hoist_def centre_hoisted_def new_SimSystem_def reset_def Let_def consts_defs
      bind_res_def js_div_def)

lemma first_advance_energy:
  "\<exists>s'. update (new_SimSystem 0) (1 / 30) = Inr (s', 2158200 - 5667237 / 25000)
        \<and> initialEnergy s' = 2158200 \<and> b_vy (ball s') = 327 / 10 * 1.01"
proof -
  define s where "s = (new_SimSystem 0)
     \<lparr>ball := fst ((ball (new_SimSystem 0))\<lparr>b_y := - 220 + 981 * 136 / 230400,
                                            b_vy := 327 / 10\<rparr>,
                    container (new_SimSystem 0)),
      container := snd ((ball (new_SimSystem 0))\<lparr>b_y := - 220 + 981 * 136 / 230400,
                                                b_vy := 327 / 10\<rparr>,
                        container (new_SimSystem 0))\<rparr>"
  have i: "initialEnergy s = 2158200" by (simp add: s_def new_SimSystem_def reset_fields)
  have v: "b_vy (ball s) = 327 / 10" by (simp add: s_def)
  have st: "calculateEnergy s = \<lparr>total = 2158200 - 5680603125 / 1000000 + 534645 / 100,
                                  pe = 2158200 - 5680603125 / 1000000\<rparr>"
    by (simp add: s_def calculateEnergy_def Let_def new_SimSystem_def reset_def consts_defs)
  have c: "corrects s (calculateEnergy s)" unfolding st by (simp add: corrects_def i)
  have q: "(initialEnergy s - pe (calculateEnergy s))
             / (total (calculateEnergy s) - pe (calculateEnergy s)) = 17 / 16"
    unfolding st by (simp add: i)
  have "(1.01::real) \<le> sqrt (17 / 16)" by (rule real_le_rsqrt) (simp add: power2_eq_square)
  then have sc: "1.01 = max 0.99 (min 1.01 (sqrt ((initialEnergy s - pe (calculateEnergy s))
             / (total (calculateEnergy s) - pe (calculateEnergy s)))))"
    unfolding q by simp
  have ce: "correctEnergy s (calculateEnergy s)
      = Inr (scale_velocities s 1.01, 2158200 - 5667237 / 25000)"
    using correctEnergy_applied [OF c sc] by (simp add: st)
  have "update (new_SimSystem 0) (1 / 30) = correctEnergy s (calculateEnergy s)"
    by (simp only: update_def hoist_start fall16 bind_res_def Let_def s_def sum.case)
  then show ?thesis unfolding ce by (simp add: scale_velocities_fields i v)
qed

section \<open>A correction scale that is not a finite number\<close>

text \<open>
  In exact real arithmetic the scale \<^verbatim>\<open>Math.sqrt(targetKE / currentKE)\<close> of two energies
  above \<open>1e-6\<close> is always a number, so this section is about the code in doubles. There
  the clamp \<^verbatim>\<open>Math.max(0.99, Math.min(1.01, scale))\<close> runs before the test
  \<^verbatim>\<open>Number.isFinite(scale)\<close>, which the source introduces as the
  \<^verbatim>\<open>Safety check for NaN/Infinity\<close>. The clamp keeps \<open>NaN\<close> and turns every other value,
  the infinities too, into a double between \<open>0.99\<close> and \<open>1.01\<close>, so the test fails for
  \<open>NaN\<close> only.
\<close>

lemma clamped_scale64_NaN:
  "clamped_scale64 this stats = NaN \<longleftrightarrow> raw_scale64 this stats = NaN"
  by (simp add: clamped_scale64_def Math_max64_def Math_min64_def lit64_values)

lemma clamped_scale64_finite:
  "isFinite64 (clamped_scale64 this stats) \<longleftrightarrow> raw_scale64 this stats \<noteq> NaN"
  by (cases "raw_scale64 this stats")
    (simp_all add: clamped_scale64_def Math_max64_def Math_min64_def lit64_values)

lemma clamped_scale64_PosInf:
  "raw_scale64 this stats = PosInf
   \<Longrightarrow> clamped_scale64 this stats = Num (4548635623644201 / 4503599627370496)"
  by (simp add: clamped_scale64_def Math_max64_def Math_min64_def lit64_values)



text \<open>
  For the scale \<open>NaN\<close> the code does what the claim says: the system is left as it is
  and \<^verbatim>\<open>stats.total\<close> is returned. An example is the system whose baseline and velocity
  are \<open>+Infinity\<close>, where the quotient is \<^verbatim>\<open>Infinity / Infinity\<close>.
\<close>

lemma calculateEnergy64_infinite:
  "calculateEnergy64 infinite_baseline64 = \<lparr>total64 = PosInf, pe64 = Num 0\<rparr>"
proof -
  have r1: "round64 (1 / 2) = Num (1 / 2)"
    using round64_cert [of "-53" "1 / 2" "4503599627370496"] by simp
  have r2: "round64 5 = Num 5"
    using round64_cert [of "-50" "5" "5629499534213120"] by simp
  have r3: "round64 2250 = Num 2250"
    using round64_cert [of "-41" "2250" "4947802324992000"] by simp
  have r4: "round64 9000000 = Num 9000000"
    using round64_cert [of "-29" "9000000" "4831838208000000"] by simp
  have r5: "round64 (- 9810) = Num (- 9810)"
    using round64_cert [of "-39" "- 9810" "-5393104534241280"] by simp
  show ?thesis
    by (simp add: calculateEnergy64_def Let_def infinite_baseline64_def falling64_def
        still_container64_def lit64_def GRAVITY64_value round64_0 r1 r2 r3 r4 r5)
qed

lemma correctEnergy64_skips_NaN:
  assumes "raw_scale64 this stats = NaN"
  shows "correctEnergy64 this stats = (this, total64 stats)"
  using assms
  by (simp add: correctEnergy64_def raw_scale64_def Let_def Math_max64_def Math_min64_def)

lemma correctEnergy64_skips_NaN_example:
  "corrects64 infinite_baseline64 (calculateEnergy64 infinite_baseline64)
   \<and> raw_scale64 infinite_baseline64 (calculateEnergy64 infinite_baseline64) = NaN
   \<and> correctEnergy64 infinite_baseline64 (calculateEnergy64 infinite_baseline64)
       = (infinite_baseline64, PosInf)"
proof -
  have i: "initialEnergy64 infinite_baseline64 = PosInf"
    by (simp add: infinite_baseline64_def)
  have r: "raw_scale64 infinite_baseline64 (calculateEnergy64 infinite_baseline64) = NaN"
    by (simp add: raw_scale64_def calculateEnergy64_infinite i sub64_def)
  have c: "corrects64 infinite_baseline64 (calculateEnergy64 infinite_baseline64)"
    by (simp add: corrects64_def calculateEnergy64_infinite i sub64_def falsy64_def
        greater64_def lit64_values)
  show ?thesis
    using correctEnergy64_skips_NaN
      [of infinite_baseline64 "calculateEnergy64 infinite_baseline64"] r c
    by (simp add: calculateEnergy64_infinite)
qed

text \<open>
  The first version's \<^verbatim>\<open>correctEnergy()\<close> has no finiteness test at all: in that
  example it multiplies the velocities by \<open>NaN\<close>.
\<close>

lemma correctEnergy64_v1_spreads_NaN:
  "vx64 (ball64 infinite_baseline64) = PosInf
   \<and> vx64 (ball64 (correctEnergy64_v1 infinite_baseline64)) = NaN"
proof -
  have i: "initialEnergy64 infinite_baseline64 = PosInf"
    by (simp add: infinite_baseline64_def)
  have v: "vx64 (ball64 infinite_baseline64) = PosInf"
    by (simp add: infinite_baseline64_def falling64_def)
  show ?thesis
    by (simp add: correctEnergy64_v1_def calculateEnergy64_infinite i v Let_def sub64_def
        falsy64_def greater64_def lit64_values scale_velocities64_def)
qed

section \<open>The ball stays inside the container\<close>





subsection \<open>The same advance in doubles\<close>





















section \<open>The ball at the centre\<close>

text \<open>
  Claim C7: in a sub-step whose integration leaves the ball exactly at the container's
  centre, the sub-step completes (no division by the zero distance is reached) and the
  collision handling changes nothing: the result is the integrated state. This holds for
  the second version of \<^verbatim>\<open>update\<close> with any hoisted values, and for the first version
  when the ball is smaller than the container.
\<close>

theorem centre_skips_collision:
  assumes "b_x (fst bc') = 0" and "b_y (fst bc') = 0"
  shows "(integrate h bc = bc' \<longrightarrow> sub_step h bc = Inr bc')
       \<and> (integrate_v1 sd bc = bc' \<and> b_radius (fst bc') < c_radius (snd bc')
            \<longrightarrow> sub_step_v1 sd bc = Inr bc')"
proof -
  have "collide h bc' = Inr bc'"
    using assms by (simp add: collide_def Let_def bind_res_def Math_sqrt_def)
  moreover have "collide_v1 bc' = Inr bc'" if "b_radius (fst bc') < c_radius (snd bc')"
    using assms that by (simp add: collide_v1_def Let_def bind_res_def Math_sqrt_def)
  ultimately show ?thesis by (auto simp add: sub_step_def sub_step_v1_def)
qed

theorem centre_skips_collision_witness:
  "b_x (fst (centre_ball\<lparr>b_vy := 0\<rparr>, container (new_SimSystem 0))) = 0
   \<and> b_y (fst (centre_ball\<lparr>b_vy := 0\<rparr>, container (new_SimSystem 0))) = 0
   \<and> integrate centre_hoisted (centre_ball, container (new_SimSystem 0))
       = (centre_ball\<lparr>b_vy := 0\<rparr>, container (new_SimSystem 0))
   \<and> integrate_v1 (1 / 480) (centre_ball, container (new_SimSystem 0))
       = (centre_ball\<lparr>b_vy := 0\<rparr>, container (new_SimSystem 0))
   \<and> b_radius (fst (centre_ball\<lparr>b_vy := 0\<rparr>, container (new_SimSystem 0)))
       < c_radius (snd (centre_ball\<lparr>b_vy := 0\<rparr>, container (new_SimSystem 0)))
   \<and> sub_step centre_hoisted (centre_ball, container (new_SimSystem 0))
       = Inr (centre_ball\<lparr>b_vy := 0\<rparr>, container (new_SimSystem 0))
   \<and> sub_step_v1 (1 / 480) (centre_ball, container (new_SimSystem 0))
       = Inr (centre_ball\<lparr>b_vy := 0\<rparr>, container (new_SimSystem 0))"
proof -
  let ?bc = "(centre_ball, container (new_SimSystem 0))"
  let ?bc' = "(centre_ball\<lparr>b_vy := 0\<rparr>, container (new_SimSystem 0))"
  have x: "b_x (fst ?bc') = 0" and y: "b_y (fst ?bc') = 0" by (simp_all add: centre_ball_def)
  have i2: "integrate centre_hoisted ?bc = ?bc'"
    by (simp add: integrate_def Let_def centre_ball_def centre_hoisted_def new_SimSystem_def
        reset_def)
  have i1: "integrate_v1 (1 / 480) ?bc = ?bc'"
    by (simp add: integrate_v1_def Let_def centre_ball_def new_SimSystem_def reset_def
        consts_defs)
  have r: "b_radius (fst ?bc') < c_radius (snd ?bc')"
    by (simp add: centre_ball_def new_SimSystem_def reset_def Let_def consts_defs)
  show ?thesis
    using x y i1 i2 r centre_skips_collision [OF x y, of centre_hoisted ?bc "1 / 480"]
    by simp
qed

section \<open>The state buffer\<close>

text \<open>
  Claim C5: for every \<^verbatim>\<open>update\<close> command (carrying a time delta, to a worker whose
  systems have the constructor's parameters) and every \<^verbatim>\<open>reset\<close> command, the reply's
  buffer has byte length \<open>4 * systemCount * 4\<close>, the systems keep their number and order
  (the id at each index is unchanged), and for every index \<open>i\<close> the four floats at offset
  \<open>4 * i\<close> are the system's current ball x, ball y, ball angle and container angle, each
  as the \<^verbatim>\<open>Float32Array\<close> stores it (the conversion \<open>f32\<close> to a 32-bit float).
\<close>

theorem state_buffer_layout:
  assumes "m_type msg = ''update'' \<and> worker_ok w \<and> msg_dt msg \<noteq> None
           \<or> m_type msg = ''reset''"
  shows "\<exists>w' r buf. onmessage f32 w msg = Inr (w', Some r) \<and> reply_buffer r = Some buf
       \<and> length (systems w') = length (systems w)
       \<and> byteLength buf = 4 * length (systems w') * 4
       \<and> (\<forall>i < length (systems w').
             sys_id (systems w' ! i) = sys_id (systems w ! i)
           \<and> floats buf (4 * i) = f32 (b_x (ball (systems w' ! i)))
           \<and> floats buf (4 * i + 1) = f32 (b_y (ball (systems w' ! i)))
           \<and> floats buf (4 * i + 2) = f32 (b_angle (ball (systems w' ! i)))
           \<and> floats buf (4 * i + 3) = f32 (c_angle (container (systems w' ! i))))"
  using assms
proof
  assume a: "m_type msg = ''update'' \<and> worker_ok w \<and> msg_dt msg \<noteq> None"
  then obtain d where d: "msg_dt msg = Some d" by auto
  obtain ss' out' tot' where
    r: "onmessage f32 w msg
           = Inr (w\<lparr>systems := ss'\<rparr>,
                  Some (Updated (m_batchId msg)
                    (fst (choose_buffer (m_buffer msg) (length (systems w) * STATE_STRIDE)))
                    out' tot'))"
    and len: "length ss' = length (systems w)"
    and el: "\<forall>j < length (systems w). \<exists>e. update (systems w ! j) d = Inr (ss' ! j, e)"
    and b: "byteLength out' = 4 * length (systems w) * 4"
    and f: "\<forall>k < 4 * length ss'. floats out' k = state_cell f32 ss' k"
    using onmessage_update [of msg w d f32] a d by auto
  have ids: "sys_id (ss' ! i) = sys_id (systems w ! i)" if "i < length ss'" for i
  proof -
    have "i < length (systems w)" using that len by simp
    then have "\<exists>e. update (systems w ! i) d = Inr (ss' ! i, e)" using el by blast
    then obtain e where "update (systems w ! i) d = Inr (ss' ! i, e)" by blast
    moreover have "system_ok (systems w ! i)"
      using a that len by (simp add: worker_ok_def list_all_length)
    ultimately show ?thesis using update_result(2) by blast
  qed
  show ?thesis
    using r len b ids cells_of_system [OF f] by (intro exI [of _ "w\<lparr>systems := ss'\<rparr>"]) simp
next
  assume a: "m_type msg = ''reset''"
  let ?ss' = "map reset_own (systems w)"
  obtain out' where
    r: "onmessage f32 w msg
           = Inr (w\<lparr>systems := ?ss'\<rparr>,
                  Some (WasReset (m_batchId msg)
                    (fst (choose_buffer (m_buffer msg) (length (systems w) * STATE_STRIDE)))
                    out' (sum_list (map (\<lambda>s. initialEnergy (reset_own s)) (systems w)))))"
    and b: "byteLength out' = 4 * length (systems w) * 4"
    and f: "\<forall>k < 4 * length ?ss'. floats out' k = state_cell f32 ?ss' k"
    using onmessage_reset [OF a, of f32 w] by auto
  show ?thesis
    using r b cells_of_system [OF f]
    by (intro exI [of _ "w\<lparr>systems := ?ss'\<rparr>"]) (simp add: reset_own_id)
qed

theorem state_buffer_layout_witness:
  "(m_type (update_message (1 / 30) NotArrayBuffer) = ''update'' \<and> worker_ok one_worker
      \<and> msg_dt (update_message (1 / 30) NotArrayBuffer) \<noteq> None
    \<or> m_type (update_message (1 / 30) NotArrayBuffer) = ''reset'')
   \<and> (\<exists>w' r buf. onmessage (\<lambda>v. v) one_worker (update_message (1 / 30) NotArrayBuffer)
                    = Inr (w', Some r)
         \<and> reply_buffer r = Some buf \<and> byteLength buf = 16
         \<and> floats buf 0 = b_x (ball (systems w' ! 0))
         \<and> floats buf 3 = c_angle (container (systems w' ! 0)))"
proof -
  have h: "m_type (update_message (1 / 30) NotArrayBuffer) = ''update'' \<and> worker_ok one_worker
      \<and> msg_dt (update_message (1 / 30) NotArrayBuffer) \<noteq> None
    \<or> m_type (update_message (1 / 30) NotArrayBuffer) = ''reset''"
    by (simp add: update_message_def msg_dt_def worker_ok_def one_worker_def new_SimSystem_ok)
  have l: "length (systems one_worker) = 1" by (simp add: one_worker_def)
  show ?thesis
    using h state_buffer_layout [OF h, of "\<lambda>v. v"] by (auto simp add: l)
qed



section \<open>Resetting twice\<close>

text \<open>
  Claim C9: for every worker state, two \<^verbatim>\<open>reset\<close> commands processed one after the other
  (whatever buffers and tokens they carry) both reply, with the same buffer contents and
  the same total energy.
\<close>

theorem reset_twice_same:
  assumes "m_type msg1 = ''reset''" and "m_type msg2 = ''reset''"
  shows "\<exists>w1 r1 b1 e1 w2 r2 b2 e2.
           onmessage f32 w msg1 = Inr (w1, Some r1)
         \<and> onmessage f32 w1 msg2 = Inr (w2, Some r2)
         \<and> reply_buffer r1 = Some b1 \<and> reply_buffer r2 = Some b2
         \<and> reply_energy r1 = Some e1 \<and> reply_energy r2 = Some e2
         \<and> contents b1 = contents b2 \<and> e1 = e2"
proof -
  let ?ss = "systems w"
  let ?w1 = "w\<lparr>systems := map reset_own ?ss\<rparr>"
  let ?e = "sum_list (map (\<lambda>s. initialEnergy (reset_own s)) ?ss)"
  obtain b1 where
    r1: "onmessage f32 w msg1
           = Inr (?w1, Some (WasReset (m_batchId msg1)
                    (fst (choose_buffer (m_buffer msg1) (length ?ss * STATE_STRIDE))) b1 ?e))"
    and l1: "byteLength b1 = 4 * length ?ss * 4"
    and f1: "\<forall>k < 4 * length ?ss. floats b1 k = state_cell f32 (map reset_own ?ss) k"
    using onmessage_reset [OF assms(1), of f32 w] by auto
  have s1: "systems ?w1 = map reset_own ?ss" by simp
  have again: "map reset_own (map reset_own ?ss) = map reset_own ?ss"
    by (simp add: reset_own_twice)
  have e2: "sum_list (map (\<lambda>s. initialEnergy (reset_own s)) (map reset_own ?ss)) = ?e"
    by (simp add: reset_own_twice comp_def)
  obtain b2 where
    r2: "onmessage f32 ?w1 msg2
           = Inr (?w1\<lparr>systems := map reset_own (systems ?w1)\<rparr>,
                Some (WasReset (m_batchId msg2)
                    (fst (choose_buffer (m_buffer msg2) (length (systems ?w1) * STATE_STRIDE)))
                    b2 (sum_list (map (\<lambda>s. initialEnergy (reset_own s)) (systems ?w1)))))"
    and l2: "byteLength b2 = 4 * length (systems ?w1) * 4"
    and f2: "\<forall>k < 4 * length (systems ?w1).
               floats b2 k = state_cell f32 (map reset_own (systems ?w1)) k"
    using onmessage_reset [OF assms(2), of f32 ?w1] by auto
  note l2' = l2 [unfolded s1 length_map]
  note f2' = f2 [unfolded s1 again length_map]
  note r2' = r2 [unfolded s1 e2]
  have "map (floats b1) [0..<byteLength b1 div 4] = map (floats b2) [0..<byteLength b2 div 4]"
    unfolding l1 l2' using f1 f2' by simp
  then have c: "contents b1 = contents b2" by (simp only: contents_def)
  define r1v where "r1v = WasReset (m_batchId msg1)
      (fst (choose_buffer (m_buffer msg1) (length ?ss * STATE_STRIDE))) b1 ?e"
  define r2v where "r2v = WasReset (m_batchId msg2)
      (fst (choose_buffer (m_buffer msg2) (length (map reset_own ?ss) * STATE_STRIDE))) b2 ?e"
  have A: "onmessage f32 w msg1 = Inr (?w1, Some r1v)"
    using r1 by (simp only: r1v_def)
  have B: "onmessage f32 ?w1 msg2
      = Inr (?w1\<lparr>systems := map reset_own (map reset_own ?ss)\<rparr>, Some r2v)"
    using r2' by (simp only: r2v_def)
  have C: "reply_buffer r1v = Some b1" "reply_buffer r2v = Some b2"
    "reply_energy r1v = Some ?e" "reply_energy r2v = Some ?e"
    by (simp_all add: r1v_def r2v_def)
  show ?thesis using A B C c by blast
qed

theorem reset_twice_same_witness:
  "m_type (reset_message NotArrayBuffer) = ''reset''
   \<and> m_type (reset_message (IsArrayBuffer (new_ArrayBuffer 16))) = ''reset''
   \<and> (\<exists>w1 r1 b1 w2 r2 b2.
           onmessage (\<lambda>v. v) one_worker (reset_message NotArrayBuffer) = Inr (w1, Some r1)
         \<and> onmessage (\<lambda>v. v) w1 (reset_message (IsArrayBuffer (new_ArrayBuffer 16)))
             = Inr (w2, Some r2)
         \<and> reply_buffer r1 = Some b1 \<and> reply_buffer r2 = Some b2
         \<and> contents b1 = contents b2 \<and> reply_energy r1 = reply_energy r2)"
proof -
  have h1: "m_type (reset_message NotArrayBuffer) = ''reset''"
    and h2: "m_type (reset_message (IsArrayBuffer (new_ArrayBuffer 16))) = ''reset''"
    by (simp_all add: reset_message_def)
  show ?thesis
    using h1 h2 reset_twice_same [OF h1 h2, of "\<lambda>v. v" one_worker] by (simp only: simp_thms) metis
qed

section \<open>The two versions of the sub-step\<close>

lemma integrate_versions:
  assumes "h_subDt h = sd" and "h_gravitySubDt h = GRAVITY * sd"
  shows "integrate h bc = integrate_v1 sd bc"
  using assms by (simp add: integrate_def integrate_v1_def Let_def)

lemma sqrt_ge_iff: "0 \<le> m \<Longrightarrow> (m * m \<le> x * x + y * y) = (m \<le> sqrt (x * x + y * y))"
  by (metis real_sqrt_le_iff real_sqrt_abs2 abs_of_nonneg)

lemma js_div_nonzero: "d \<noteq> 0 \<Longrightarrow> js_div a d = Inr (a / d)"
  by (simp add: js_div_def)

lemma collide_versions:
  assumes p: "params_ok (fst bc) (snd bc)"
    and h: "h_rB h = 30" "h_rC h = 300" "h_maxDist h = 270" "h_maxDistSq h = 72900"
      "h_invMass h = 1 / 10" "h_invInertiaB h = 1 / 4500" "h_invInertiaC h = 1 / 18000000"
      "h_effMass h = 200 / 61"
  shows "collide_v1 bc = collide h bc"
proof -
  let ?x = "b_x (fst bc)" and ?y = "b_y (fst bc)"
  let ?d = "sqrt (?x * ?x + ?y * ?y)"
  have pr: "b_radius (fst bc) = 30" "b_mass (fst bc) = 10" "b_inertia (fst bc) = 4500"
    "c_radius (snd bc) = 300" "c_inertia (snd bc) = 18000000"
    using p by (simp_all add: params_ok_def consts_defs)
  have iff: "(72900 \<le> ?x * ?x + ?y * ?y) = (270 \<le> ?d)"
    using sqrt_ge_iff [of 270 ?x ?y] by simp
  show ?thesis
  proof (cases "270 \<le> ?d")
    case False
    then show ?thesis
      by (simp add: collide_v1_def collide_def Let_def bind_res_def Math_sqrt_sumsq pr h iff)
  next
    case True
    then have pos: "?d \<noteq> 0" "\<not> ?d \<le> 0" and pen: "0 \<le> ?d - 270" by linarith+
    define R2 where "R2 = (\<lambda>nx ny pen.
       let b = fst bc; c = snd bc;
           b1 = (if pen > 0 then b\<lparr>b_x := b_x b - nx * pen, b_y := b_y b - ny * pen\<rparr> else b);
           tx = - ny; ty = nx; vn = b_vx b1 * nx + b_vy b1 * ny
       in if vn > 0 then
            let impulseN = - (1 + RESTITUTION_NORMAL) * vn;
                b2 = b1\<lparr>b_vx := b_vx b1 + impulseN * nx, b_vy := b_vy b1 + impulseN * ny\<rparr>;
                vtBallSurf = (b_vx b2 * tx + b_vy b2 * ty) + (b_angularVelocity b2 * h_rB h);
                vtWallSurf = c_angularVelocity c * h_rC h;
                vRelTan = vtBallSurf - vtWallSurf;
                jt = - (1 + RESTITUTION_TANGENT) * vRelTan * h_effMass h;
                jtInvMass = jt * h_invMass h;
                b3 = b2\<lparr>b_vx := b_vx b2 + jtInvMass * tx,
                        b_vy := b_vy b2 + jtInvMass * ty,
                        b_angularVelocity :=
                          b_angularVelocity b2 + jt * h_rB h * h_invInertiaB h\<rparr>;
                c1 = c\<lparr>c_angularVelocity :=
                          c_angularVelocity c - jt * h_rC h * h_invInertiaC h\<rparr>
            in (b3, c1)
          else (b1, c))"
    define R1 where "R1 = (\<lambda>nx ny pen.
       let b = fst bc; c = snd bc;
           b1 = b\<lparr>b_x := b_x b - nx * pen, b_y := b_y b - ny * pen\<rparr>;
           tx = - ny; ty = nx; vn = b_vx b1 * nx + b_vy b1 * ny;
           vt_ball_surf = (b_vx b1 * tx + b_vy b1 * ty) + b_angularVelocity b1 * 30;
           vt_wall_surf = c_angularVelocity c * 300;
           v_rel_tan = vt_ball_surf - vt_wall_surf
       in if vn > 0 then
            let jn = - (1 + RESTITUTION_NORMAL) * vn * 10;
                b2 = b1\<lparr>b_vx := b_vx b1 + (jn * nx) / 10, b_vy := b_vy b1 + (jn * ny) / 10\<rparr>;
                effMass = 1 / (1 / 10 + (30 * 30) / 4500 + (300 * 300) / 18000000);
                jt = - (1 + RESTITUTION_TANGENT) * v_rel_tan * effMass
            in (b2\<lparr>b_vx := b_vx b2 + (jt * tx) / 10,
                    b_vy := b_vy b2 + (jt * ty) / 10,
                    b_angularVelocity := b_angularVelocity b2 + (jt * 30) / 4500\<rparr>,
                c\<lparr>c_angularVelocity := c_angularVelocity c - (jt * 300) / 18000000\<rparr>)
          else (b1, c))"
    have v2: "collide h bc = Inr (R2 (?x * (1 / ?d)) (?y * (1 / ?d)) (?d - 270))"
      using True pos
      by (simp add: collide_def Let_def bind_res_def Math_sqrt_sumsq js_div_nonzero iff h R2_def)
    have v1: "collide_v1 bc = Inr (R1 (?x / ?d) (?y / ?d) (?d - 270))"
      using True pos
      by (simp add: collide_v1_def Let_def bind_res_def Math_sqrt_sumsq js_div_nonzero pr R1_def)
    have eq: "R1 nx ny pen = R2 nx ny pen" if "0 \<le> pen" for nx ny pen
    proof (rule prod_eqI)
      show "fst (R1 nx ny pen) = fst (R2 nx ny pen)"
        using that
        by (intro Ball.equality)
          (simp_all add: R1_def R2_def Let_def h RESTITUTION_NORMAL_def RESTITUTION_TANGENT_def
            field_simps)
      show "snd (R1 nx ny pen) = snd (R2 nx ny pen)"
        using that
        by (intro Container.equality)
          (simp_all add: R1_def R2_def Let_def h RESTITUTION_NORMAL_def RESTITUTION_TANGENT_def
            field_simps)
    qed
    show ?thesis unfolding v1 v2 using eq [OF pen] by simp
  qed
qed

lemma sub_step_versions:
  assumes "params_ok (fst bc) (snd bc)" and "hoist dt (fst bc) (snd bc) = Inr h"
  shows "sub_step_v1 (dt / real SUB_STEPS) bc = sub_step h bc"
proof -
  have v: "h_subDt h = dt / 16" "h_gravitySubDt h = 981 * (dt / 16)"
      "h_rB h = 30" "h_rC h = 300" "h_maxDist h = 270" "h_maxDistSq h = 72900"
      "h_invMass h = 1 / 10" "h_invInertiaB h = 1 / 4500" "h_invInertiaC h = 1 / 18000000"
      "h_effMass h = 200 / 61"
    using hoist_ok [OF assms(1), of dt] assms(2) by auto
  have i: "integrate h bc = integrate_v1 (dt / real SUB_STEPS) bc"
    by (rule integrate_versions) (simp_all add: v consts_defs)
  have "params_ok (fst (integrate h bc)) (snd (integrate h bc))"
    using assms(1) by (simp add: integrate_params)
  then have "collide_v1 (integrate h bc) = collide h (integrate h bc)"
    by (rule collide_versions) (rule v)+
  then show ?thesis using i by (simp add: sub_step_def sub_step_v1_def)
qed

text \<open>The same for any number of sub-steps in a row, so for the loops of both versions.\<close>

lemma sub_steps_versions:
  assumes "params_ok (fst bc) (snd bc)" and "hoist dt (fst bc) (snd bc) = Inr h"
  shows "sub_steps_v1 n (dt / real SUB_STEPS) bc = sub_steps n h bc"
  using assms
proof (induction n arbitrary: bc)
  case 0
  show ?case by simp
next
  case (Suc n)
  have e: "sub_step_v1 (dt / real SUB_STEPS) bc = sub_step h bc"
    using sub_step_versions [OF Suc.prems] .
  obtain bc1 where s: "sub_step h bc = Inr bc1" using sub_step_total by blast
  have p1: "params_ok (fst bc1) (snd bc1)" using sub_step_params [OF s] Suc.prems(1) by simp
  have "hoist dt (fst bc1) (snd bc1) = hoist dt (fst bc) (snd bc)"
    using hoist_ok [OF p1, of dt] hoist_ok [OF Suc.prems(1), of dt] by auto
  then have "sub_steps_v1 n (dt / real SUB_STEPS) bc1 = sub_steps n h bc1"
    using Suc.IH [OF p1] Suc.prems(2) by simp
  then show ?case using e s by (simp add: bind_res_def)
qed

text \<open>
  Claim C10: in exact real arithmetic, for every state of a system (position, velocities
  and angles arbitrary; radius, mass and inertia as the constructor sets them) and every
  sub-step size \<open>dt / 16\<close>, one sub-step of the first version of \<^verbatim>\<open>update\<close> and one
  sub-step of the second version give the same result: both stay in the finite numbers and
  end with the same ball and container.
\<close>

theorem sub_step_versions_agree:
  assumes "params_ok (fst bc) (snd bc)"
  shows "\<exists>h bc'. hoist dt (fst bc) (snd bc) = Inr h
           \<and> sub_step h bc = Inr bc'
           \<and> sub_step_v1 (dt / real SUB_STEPS) bc = Inr bc'"
proof -
  obtain h where h: "hoist dt (fst bc) (snd bc) = Inr h"
    using hoist_ok [OF assms, of dt] by blast
  obtain bc' where s: "sub_step h bc = Inr bc'" using sub_step_total by blast
  show ?thesis using h s sub_step_versions [OF assms h] by simp
qed

theorem sub_step_versions_agree_witness:
  "params_ok (fst contact_state) (snd contact_state)
   \<and> b_x (fst (integrate centre_hoisted contact_state)) = 168
   \<and> b_y (fst (integrate centre_hoisted contact_state)) = 224
   \<and> b_vx (fst (integrate centre_hoisted contact_state)) = 3
   \<and> b_vy (fst (integrate centre_hoisted contact_state)) = 4
   \<and> hoist (1 / 30) (fst contact_state) (snd contact_state) = Inr centre_hoisted
   \<and> sub_step centre_hoisted contact_state = Inr contact_result
   \<and> sub_step_v1 (1 / 480) contact_state = Inr contact_result"
proof -
  have p: "params_ok (fst contact_state) (snd contact_state)"
    using new_SimSystem_ok [of 0] by (simp add: system_ok_def contact_state_def params_ok_def)
  have i: "integrate centre_hoisted contact_state
      = ((ball (new_SimSystem 0))\<lparr>b_x := 168, b_y := 224, b_vx := 3, b_vy := 4,
            b_angle := 1 / 480, b_angularVelocity := 1\<rparr>,
         (container (new_SimSystem 0))\<lparr>c_angle := 1 / 240, c_angularVelocity := 2\<rparr>)"
    by (simp add: integrate_def Let_def contact_state_def centre_hoisted_def new_SimSystem_def
        reset_def)
  have hc: "hoist (1 / 30) (fst contact_state) (snd contact_state) = Inr centre_hoisted"
    by (simp add: hoist_def centre_hoisted_def contact_state_def new_SimSystem_def reset_def
        Let_def consts_defs bind_res_def js_div_def)
  have "sqrt (280 * 280) = \<bar>280::real\<bar>" by (rule real_sqrt_abs2)
  then have sq: "sqrt 78400 = (280::real)" by simp
  have s2: "sub_step centre_hoisted contact_state = Inr contact_result"
    unfolding sub_step_def i
    by (simp add: collide_def Let_def bind_res_def Math_sqrt_def js_div_def sq
        centre_hoisted_def contact_result_def new_SimSystem_def reset_def consts_defs)
  obtain h bc' where "hoist (1 / 30) (fst contact_state) (snd contact_state) = Inr h"
    and "sub_step h contact_state = Inr bc'"
    and "sub_step_v1 (1 / 30 / real SUB_STEPS) contact_state = Inr bc'"
    using sub_step_versions_agree [OF p, of "1 / 30"] by blast
  then have "sub_step_v1 (1 / 480) contact_state = Inr contact_result"
    using hc s2 by (simp add: SUB_STEPS_def)
  then show ?thesis using p hc s2 by (simp add: i)
qed

end
